theory Spec2Isabelle
  imports Main "HOL-Library.Word"
begin

unbundle bit_operations_syntax

section \<open>Strings and buffers\<close>

text \<open>
  A JavaScript string is a sequence of 16-bit code units (UTF-16); a Node \<open>Buffer\<close> is a
  sequence of bytes. \<open>js\<close> writes an ASCII literal as a JavaScript string.
\<close>

type_synonym byte = "8 word"
type_synonym buffer = "byte list"
type_synonym jschar = "16 word"
type_synonym jsstring = "jschar list"

definition js :: "string \<Rightarrow> jsstring" where
  "js s = map (\<lambda>c. of_nat (of_char c)) s"

definition colon :: jschar where
  "colon = 58"

subsection \<open>Hexadecimal: \<open>buf.toString("hex")\<close> and \<open>Buffer.from(s, "hex")\<close>\<close>

definition hex_digit :: "nat \<Rightarrow> jschar" where
  "hex_digit n = (if n < 10 then of_nat (48 + n) else of_nat (87 + n))"

fun toHex :: "buffer \<Rightarrow> jsstring" where
  "toHex [] = []"
| "toHex (b # bs) = hex_digit (unat b div 16) # hex_digit (unat b mod 16) # toHex bs"

text \<open>
  The value of a hexadecimal digit, in either case. Node's decoder reads the low byte of
  the code unit; \<open>None\<close> when that byte is not a hexadecimal digit.
\<close>

definition unhex :: "jschar \<Rightarrow> nat option" where
  "unhex c =
     (let n = unat c mod 256 in
      if 48 \<le> n \<and> n \<le> 57 then Some (n - 48)
      else if 97 \<le> n \<and> n \<le> 102 then Some (n - 87)
      else if 65 \<le> n \<and> n \<le> 70 then Some (n - 55)
      else None)"

text \<open>
  Decoding never raises: it takes the digits two at a time and stops at the first pair
  that is not two hexadecimal digits; a trailing single character is dropped.
\<close>

fun fromHex :: "jsstring \<Rightarrow> buffer" where
  "fromHex (a # b # cs) =
     (case unhex a of
        None \<Rightarrow> []
      | Some x \<Rightarrow>
          (case unhex b of
             None \<Rightarrow> []
           | Some y \<Rightarrow> of_nat (16 * x + y) # fromHex cs))"
| "fromHex [a] = []"
| "fromHex [] = []"

subsection \<open>\<open>String.prototype.split\<close> on a one-character separator\<close>

fun js_split :: "jschar \<Rightarrow> jsstring \<Rightarrow> jsstring list" where
  "js_split sep [] = [[]]"
| "js_split sep (c # cs) =
     (if c = sep then [] # js_split sep cs
      else (case js_split sep cs of
              [] \<Rightarrow> [[c]]
            | p # ps \<Rightarrow> (c # p) # ps))"

subsection \<open>UTF-8: the \<open>"utf8"\<close> input and output encodings of the cipher streams\<close>

definition is_high_surrogate :: "jschar \<Rightarrow> bool" where
  "is_high_surrogate c = (55296 \<le> unat c \<and> unat c \<le> 56319)"

definition is_low_surrogate :: "jschar \<Rightarrow> bool" where
  "is_low_surrogate c = (56320 \<le> unat c \<and> unat c \<le> 57343)"

text \<open>
  The code points of a string as the UTF-8 encoder reads them: a high surrogate followed
  by a low surrogate is one supplementary code point; a surrogate on its own is replaced
  by U+FFFD (65533).
\<close>

fun code_points :: "jsstring \<Rightarrow> nat list" where
  "code_points [] = []"
| "code_points [c] =
     (if is_high_surrogate c \<or> is_low_surrogate c then [65533] else [unat c])"
| "code_points (h # l # cs) =
     (if is_high_surrogate h \<and> is_low_surrogate l
      then (65536 + (unat h - 55296) * 1024 + (unat l - 56320)) # code_points cs
      else if is_high_surrogate h \<or> is_low_surrogate h
      then 65533 # code_points (l # cs)
      else unat h # code_points (l # cs))"

definition utf8_bytes :: "nat \<Rightarrow> nat list" where
  "utf8_bytes cp =
     (if cp < 128 then [cp]
      else if cp < 2048 then [192 + cp div 64, 128 + cp mod 64]
      else if cp < 65536 then [224 + cp div 4096, 128 + cp div 64 mod 64, 128 + cp mod 64]
      else [240 + cp div 262144, 128 + cp div 4096 mod 64,
            128 + cp div 64 mod 64, 128 + cp mod 64])"

definition utf8_encode :: "jsstring \<Rightarrow> buffer" where
  "utf8_encode s = map of_nat (concat (map utf8_bytes (code_points s)))"

definition is_cont :: "nat \<Rightarrow> bool" where
  "is_cont b = (128 \<le> b \<and> b \<le> 191)"

text \<open>
  Decoding bytes to code points. A byte sequence that is not well-formed UTF-8 yields
  U+FFFD for each maximal ill-formed part and decoding resumes at the byte that broke
  the sequence; overlong forms, surrogates and code points above U+10FFFF are ill-formed.
\<close>

fun decode_utf8 :: "nat list \<Rightarrow> nat list" where
  "decode_utf8 [] = []"
| "decode_utf8 (b0 # bs) =
    (if b0 < 128 then b0 # decode_utf8 bs
     else if 194 \<le> b0 \<and> b0 \<le> 223 then
       (case bs of
          [] \<Rightarrow> [65533]
        | b1 # r1 \<Rightarrow>
            if is_cont b1 then ((b0 - 192) * 64 + (b1 - 128)) # decode_utf8 r1
            else 65533 # decode_utf8 bs)
     else if 224 \<le> b0 \<and> b0 \<le> 239 then
       (case bs of
          [] \<Rightarrow> [65533]
        | b1 # r1 \<Rightarrow>
            if (if b0 = 224 then 160 else 128) \<le> b1 \<and> b1 \<le> (if b0 = 237 then 159 else 191) then
              (case r1 of
                 [] \<Rightarrow> [65533]
               | b2 # r2 \<Rightarrow>
                   if is_cont b2
                   then ((b0 - 224) * 4096 + (b1 - 128) * 64 + (b2 - 128)) # decode_utf8 r2
                   else 65533 # decode_utf8 r1)
            else 65533 # decode_utf8 bs)
     else if 240 \<le> b0 \<and> b0 \<le> 244 then
       (case bs of
          [] \<Rightarrow> [65533]
        | b1 # r1 \<Rightarrow>
            if (if b0 = 240 then 144 else 128) \<le> b1 \<and> b1 \<le> (if b0 = 244 then 143 else 191) then
              (case r1 of
                 [] \<Rightarrow> [65533]
               | b2 # r2 \<Rightarrow>
                   if is_cont b2 then
                     (case r2 of
                        [] \<Rightarrow> [65533]
                      | b3 # r3 \<Rightarrow>
                          if is_cont b3
                          then ((b0 - 240) * 262144 + (b1 - 128) * 4096
                                + (b2 - 128) * 64 + (b3 - 128)) # decode_utf8 r3
                          else 65533 # decode_utf8 r2)
                   else 65533 # decode_utf8 r1)
            else 65533 # decode_utf8 bs)
     else 65533 # decode_utf8 bs)"

definition utf16_units :: "nat \<Rightarrow> jsstring" where
  "utf16_units cp =
     (if cp < 65536 then [of_nat cp]
      else [of_nat (55296 + (cp - 65536) div 1024), of_nat (56320 + (cp - 65536) mod 1024)])"

definition utf8_decode :: "buffer \<Rightarrow> jsstring" where
  "utf8_decode buf = concat (map utf16_units (decode_utf8 (map unat buf)))"

text \<open>\<open>String.prototype.isWellFormed\<close>: no surrogate stands on its own.\<close>

fun isWellFormed :: "jsstring \<Rightarrow> bool" where
  "isWellFormed [] = True"
| "isWellFormed [c] = (\<not> is_high_surrogate c \<and> \<not> is_low_surrogate c)"
| "isWellFormed (h # l # cs) =
     (if is_high_surrogate h then is_low_surrogate l \<and> isWellFormed cs
      else \<not> is_low_surrogate h \<and> isWellFormed (l # cs))"

section \<open>Credential cipher (server/encryption.ts)\<close>

text \<open>
  The exceptions of the model: the one \<open>getEncryptionKey\<close> throws; whatever the
  cryptographic library throws while deciphering (invalid initialization vector, invalid
  tag length, failed authentication); the one \<open>decipher.update\<close> throws on a hexadecimal
  input of odd length; and the \<open>TypeError\<close> of calling a string method on a value that is
  not a string (in the settings handler).
\<close>

datatype error = MissingKey | CryptoError | InvalidArgValue | TypeError

record process_env =
  ENCRYPTION_KEY :: "jsstring option"
  SESSION_SECRET :: "jsstring option"

text \<open>
  Node's \<open>crypto\<close> module is not part of the repository; the functions the module calls
  are parameters of the model.
  \<^item> \<open>scryptSync lib password salt keylen\<close> is the derived key.
  \<^item> \<open>createCipheriv lib key iv plaintext\<close> stands for \<open>createCipheriv("aes-256-gcm", key, iv)\<close>
    followed by \<open>update\<close>, \<open>final\<close> and \<open>getAuthTag\<close>: the ciphertext and the tag.
  \<^item> \<open>createDecipheriv lib key iv tag ciphertext\<close> stands for
    \<open>createDecipheriv("aes-256-gcm", key, iv)\<close> followed by \<open>setAuthTag\<close>, \<open>update\<close> and
    \<open>final\<close>: the plaintext, or the exception one of the four calls throws.
  Enciphering throws only on a key or a vector of the wrong size, which
  \<open>scryptSync(key, "salt", 32)\<close> and \<open>randomBytes(16)\<close> exclude; it is total here.
\<close>

record crypto =
  scryptSync :: "jsstring \<Rightarrow> jsstring \<Rightarrow> nat \<Rightarrow> buffer"
  createCipheriv :: "buffer \<Rightarrow> buffer \<Rightarrow> buffer \<Rightarrow> buffer \<times> buffer"
  createDecipheriv :: "buffer \<Rightarrow> buffer \<Rightarrow> buffer \<Rightarrow> buffer \<Rightarrow> error + buffer"

text \<open>
  \<open>crypto.randomBytes(n)\<close>: the first \<open>n\<close> bytes the entropy source delivers; the source
  is an argument of \<open>encrypt\<close>.
\<close>

definition randomBytes :: "(nat \<Rightarrow> byte) \<Rightarrow> nat \<Rightarrow> buffer" where
  "randomBytes rnd n = map rnd [0..<n]"

definition IV_LENGTH :: nat where
  "IV_LENGTH = 16"

definition TAG_LENGTH :: nat where
  "TAG_LENGTH = 16"

text \<open>\<open>process.env.ENCRYPTION_KEY || process.env.SESSION_SECRET\<close>: an unset or empty
  variable is falsy.\<close>

definition env_key :: "process_env \<Rightarrow> jsstring option" where
  "env_key env =
     (case ENCRYPTION_KEY env of
        None \<Rightarrow> SESSION_SECRET env
      | Some k \<Rightarrow> if k = [] then SESSION_SECRET env else Some k)"

definition getEncryptionKey :: "process_env \<Rightarrow> crypto \<Rightarrow> error + buffer" where
  "getEncryptionKey env lib =
     (case env_key env of
        None \<Rightarrow> Inl MissingKey
      | Some key \<Rightarrow>
          if key = [] then Inl MissingKey
          else Inr (scryptSync lib key (js ''salt'') 32))"

definition encrypt :: "process_env \<Rightarrow> crypto \<Rightarrow> (nat \<Rightarrow> byte) \<Rightarrow> jsstring \<Rightarrow> error + jsstring" where
  "encrypt env lib rnd text =
     (if text = [] then Inr []
      else
        (case getEncryptionKey env lib of
           Inl e \<Rightarrow> Inl e
         | Inr key \<Rightarrow>
             let iv = randomBytes rnd IV_LENGTH;
                 sealed = createCipheriv lib key iv (utf8_encode text);
                 encrypted = toHex (fst sealed);
                 tag = snd sealed
             in Inr (toHex iv @ [colon] @ toHex tag @ [colon] @ encrypted)))"

text \<open>
  The body of the \<open>try\<close> block of \<open>decrypt\<close>: \<open>Inl\<close> is an exception thrown inside it.
  The three parts are decoded from hexadecimal, the ciphertext by \<open>update(encrypted, "hex",
  "utf8")\<close>, which throws on a string of odd length and whose output is the UTF-8
  decoding of the plaintext. (Which exception comes first, that one or one of the
  library's, cannot be told from outside: the \<open>catch\<close> treats them alike.)
\<close>

definition decrypt_try :: "process_env \<Rightarrow> crypto \<Rightarrow> jsstring \<Rightarrow> error + jsstring" where
  "decrypt_try env lib encryptedText =
     (case getEncryptionKey env lib of
        Inl e \<Rightarrow> Inl e
      | Inr key \<Rightarrow>
          let parts = js_split colon encryptedText in
          if length parts \<noteq> 3 then Inr []
          else
            let iv = fromHex (parts ! 0);
                tag = fromHex (parts ! 1);
                encrypted = parts ! 2
            in if odd (length encrypted) then Inl InvalidArgValue
               else
                 (case createDecipheriv lib key iv tag (fromHex encrypted) of
                    Inl e \<Rightarrow> Inl e
                  | Inr decrypted \<Rightarrow> Inr (utf8_decode decrypted)))"

text \<open>\<open>decrypt\<close> with its \<open>catch\<close>: every exception of the body becomes the empty string.\<close>

definition decrypt :: "process_env \<Rightarrow> crypto \<Rightarrow> jsstring \<Rightarrow> error + jsstring" where
  "decrypt env lib encryptedText =
     (if encryptedText = [] then Inr []
      else
        (case decrypt_try env lib encryptedText of
           Inl e \<Rightarrow> Inr []
         | Inr decrypted \<Rightarrow> Inr decrypted))"


subsection \<open>What the theorems ask of the environment and of the library\<close>

text \<open>An environment variable that is not set, or set to the empty string.\<close>

definition is_unset :: "jsstring option \<Rightarrow> bool" where
  "is_unset v = (v = None \<or> v = Some [])"

definition key_configured :: "process_env \<Rightarrow> bool" where
  "key_configured env = (\<not> is_unset (ENCRYPTION_KEY env) \<or> \<not> is_unset (SESSION_SECRET env))"

text \<open>\<open>scryptSync\<close> returns a key of the length asked for.\<close>

definition scrypt_length :: "crypto \<Rightarrow> bool" where
  "scrypt_length lib = (\<forall>password salt n. length (scryptSync lib password salt n) = n)"

text \<open>
  With a 32-byte key and a 16-byte initialization vector, deciphering what was enciphered,
  with the tag it was given, returns the plaintext.
\<close>

definition gcm_correct :: "crypto \<Rightarrow> bool" where
  "gcm_correct lib =
     (\<forall>key iv pt. length key = 32 \<longrightarrow> length iv = 16 \<longrightarrow>
        createDecipheriv lib key iv (snd (createCipheriv lib key iv pt))
          (fst (createCipheriv lib key iv pt)) = Inr pt)"


text \<open>A Unicode scalar value: a code point that is not a surrogate.\<close>

definition is_scalar :: "nat \<Rightarrow> bool" where
  "is_scalar cp = (cp < 1114112 \<and> \<not> (55296 \<le> cp \<and> cp \<le> 57343))"

section \<open>A reference instance of the library\<close>

text \<open>
  A small cipher with the interface of the library: a one-byte mask derived from the key
  and the initialization vector, and a 16-byte tag whose first byte is the exclusive-or
  of key, vector and ciphertext. It is used to evaluate the module at concrete inputs.
\<close>

definition ref_mask :: "buffer \<Rightarrow> buffer \<Rightarrow> byte" where
  "ref_mask key iv = foldr (XOR) (key @ iv) 90"

definition ref_tag :: "buffer \<Rightarrow> buffer \<Rightarrow> buffer \<Rightarrow> buffer" where
  "ref_tag key iv ct = foldr (XOR) ct (ref_mask key iv) # replicate 15 0"

definition ref_crypto :: crypto where
  "ref_crypto =
     \<lparr> scryptSync = (\<lambda>password salt keylen. replicate keylen (of_nat (length password))),
       createCipheriv = (\<lambda>key iv pt.
         (map (\<lambda>b. b XOR ref_mask key iv) pt,
          ref_tag key iv (map (\<lambda>b. b XOR ref_mask key iv) pt))),
       createDecipheriv = (\<lambda>key iv tag ct.
         if iv = [] \<or> length tag \<noteq> 16 \<or> tag \<noteq> ref_tag key iv ct then Inl CryptoError
         else Inr (map (\<lambda>b. b XOR ref_mask key iv) ct)) \<rparr>"

definition env_with_key :: process_env where
  "env_with_key = \<lparr> ENCRYPTION_KEY = Some (js ''k''), SESSION_SECRET = None \<rparr>"

definition env_without_key :: process_env where
  "env_without_key = \<lparr> ENCRYPTION_KEY = None, SESSION_SECRET = None \<rparr>"

section \<open>Upload relay (POST /api/upload-video in server/routes.ts)\<close>

subsection \<open>Numbers: \<open>parseInt\<close> and \<open>Number.prototype.toString\<close>\<close>

text \<open>White space and line terminators, as \<open>parseInt\<close> and \<open>trim\<close> skip them.\<close>

definition is_space :: "jschar \<Rightarrow> bool" where
  "is_space c =
     (let n = unat c in
      (9 \<le> n \<and> n \<le> 13) \<or> n = 32 \<or> n = 160 \<or> n = 5760 \<or> (8192 \<le> n \<and> n \<le> 8202)
      \<or> n = 8232 \<or> n = 8233 \<or> n = 8239 \<or> n = 8287 \<or> n = 12288 \<or> n = 65279)"

definition digit_value :: "jschar \<Rightarrow> nat option" where
  "digit_value c =
     (let n = unat c in
      if 48 \<le> n \<and> n \<le> 57 then Some (n - 48)
      else if 97 \<le> n \<and> n \<le> 122 then Some (n - 87)
      else if 65 \<le> n \<and> n \<le> 90 then Some (n - 55)
      else None)"

text \<open>The values of the longest prefix of digits of the radix.\<close>

fun digits_prefix :: "nat \<Rightarrow> jsstring \<Rightarrow> nat list" where
  "digits_prefix radix [] = []"
| "digits_prefix radix (c # cs) =
     (case digit_value c of
        None \<Rightarrow> []
      | Some d \<Rightarrow> if d < radix then d # digits_prefix radix cs else [])"

definition digits_value :: "nat \<Rightarrow> nat list \<Rightarrow> nat" where
  "digits_value radix ds = foldl (\<lambda>acc d. acc * radix + d) 0 ds"

text \<open>
  A JavaScript number, as far as \<open>parseInt\<close> can return it: \<open>NaN\<close>, an infinity, or an
  integer that is a double. Minus zero is \<open>Num 0\<close>: it is falsy as zero is, which is all
  the handler asks of it.
\<close>

datatype number = NaN | PosInfinity | NegInfinity | Num int

fun bit_length :: "nat \<Rightarrow> nat" where
  "bit_length n = (if n = 0 then 0 else Suc (bit_length (n div 2)))"

declare bit_length.simps [simp del]

text \<open>
  The double nearest to a natural number, ties to the even significand: below \<open>2^53\<close> the
  number itself; above, its 53 leading bits, rounded; \<open>None\<close> (infinity) from \<open>2^1024\<close>.
\<close>

definition to_double :: "nat \<Rightarrow> nat option" where
  "to_double n =
     (if n < 2 ^ 53 then Some n
      else
        (let e = bit_length n - 53;
             q = n div 2 ^ e;
             r = n mod 2 ^ e;
             half = 2 ^ (e - 1);
             q = (if half < r \<or> (r = half \<and> odd q) then q + 1 else q);
             v = q * 2 ^ e
         in if 2 ^ 1024 \<le> v then None else Some v))"

text \<open>
  \<open>parseInt(string)\<close> with no radix argument: leading white space is skipped, a sign is
  read, a \<open>0x\<close> or \<open>0X\<close> prefix selects radix 16, and the longest prefix of digits is the
  value, held as a double; \<open>NaN\<close> when there is no digit.
\<close>

definition parseInt :: "jsstring \<Rightarrow> number" where
  "parseInt string =
     (let s = dropWhile is_space string;
          negative = (s \<noteq> [] \<and> hd s = 45);
          s = (if s \<noteq> [] \<and> (hd s = 43 \<or> hd s = 45) then tl s else s);
          hex = (length s \<ge> 2 \<and> s ! 0 = 48 \<and> (s ! 1 = 120 \<or> s ! 1 = 88));
          radix = (if hex then 16 else 10);
          s = (if hex then drop 2 s else s);
          z = digits_prefix radix s
      in if z = [] then NaN
         else
           (case to_double (digits_value radix z) of
              None \<Rightarrow> if negative then NegInfinity else PosInfinity
            | Some v \<Rightarrow> Num ((if negative then - 1 else 1) * int v)))"

text \<open>\<open>parseInt(value) || 1\<close>: \<open>NaN\<close> and zero are falsy.\<close>

definition parseInt_or_1 :: "jsstring \<Rightarrow> number" where
  "parseInt_or_1 v =
     (case parseInt v of
        NaN \<Rightarrow> Num 1
      | Num n \<Rightarrow> if n = 0 then Num 1 else Num n
      | PosInfinity \<Rightarrow> PosInfinity
      | NegInfinity \<Rightarrow> NegInfinity)"

definition is_decimal :: "jschar \<Rightarrow> bool" where
  "is_decimal c = (48 \<le> unat c \<and> unat c \<le> 57)"

fun nat_digits :: "nat \<Rightarrow> jsstring" where
  "nat_digits n =
     (if n < 10 then [of_nat (48 + n)]
      else nat_digits (n div 10) @ [of_nat (48 + n mod 10)])"

declare nat_digits.simps [simp del]

text \<open>
  \<open>toString\<close> of a number. Below \<open>2^53\<close> in magnitude every integer is a double and its
  text is its decimal digits. From there the runtime writes the shortest digits that
  give the double back, padded with zeros, and from \<open>10^21\<close> in exponent notation
  (\<open>1e+21\<close>); that text is the parameter \<open>large\<close>.
\<close>

definition number_toString :: "(int \<Rightarrow> jsstring) \<Rightarrow> number \<Rightarrow> jsstring" where
  "number_toString large x =
     (case x of
        NaN \<Rightarrow> js ''NaN''
      | PosInfinity \<Rightarrow> js ''Infinity''
      | NegInfinity \<Rightarrow> js ''-Infinity''
      | Num n \<Rightarrow>
          if \<bar>n\<bar> < 2 ^ 53
          then (if n < 0 then 45 # nat_digits (nat (- n)) else nat_digits (nat n))
          else large n)"

subsection \<open>The request, its events and the handler's variables\<close>

type_synonym path = jsstring

text \<open>
  What happens while the request body is piped into the multipart parser, in order:
  \<^item> \<open>Field name value\<close>: the parser's \<open>field\<close> event;
  \<^item> \<open>File name filename uniqueId\<close>: the parser's \<open>file\<close> event, with the unique id (time
    stamp and random suffix) the handler draws for the temp file;
  \<^item> \<open>FileEnd\<close>: the file part in progress ends, and the pipe ends the write stream;
  \<^item> \<open>Limit\<close>: the size limit is reached on the file part in progress;
  \<^item> \<open>StreamFinish\<close>: the write stream last opened emits \<open>finish\<close> (its data is flushed);
  \<^item> \<open>Finish\<close>: the parser's \<open>finish\<close> event, at the end of the body;
  \<^item> \<open>Error\<close>: the parser's \<open>error\<close> event.
\<close>

datatype upload_event =
    Field jsstring jsstring
  | File jsstring jsstring jsstring
  | FileEnd
  | Limit
  | StreamFinish
  | Finish
  | Error

text \<open>
  The write stream of the temp file: receiving the file part; ended by the pipe and
  flushing; finished (\<open>finish\<close> emitted); destroyed by the limit handler. A destroyed
  stream never emits \<open>finish\<close>.
\<close>

datatype write_stream = Writing | Ended | Finished | Destroyed

datatype response_body = ErrorBody jsstring | SuccessBody jsstring

record response =
  status :: nat
  body :: response_body

text \<open>The \<open>form-data\<close> object the handler builds: the fields in order, and the file part.\<close>

record file_part =
  part_name :: jsstring
  part_path :: path
  part_filename :: jsstring
  part_contentType :: jsstring

record form_data =
  form_fields :: "(jsstring \<times> jsstring) list"
  form_file :: file_part

text \<open>
  A request made with \<open>fetch\<close>: the URL, the object given as \<open>body\<close>, and the body that
  goes out. The handler gives the global \<open>fetch\<close> an object of the npm class \<open>form-data\<close>,
  which \<open>fetch\<close> does not know: it sends the object's string conversion, the text
  \<open>[object FormData]\<close>, and none of the fields or the file.
\<close>

record request =
  req_url :: jsstring
  req_form :: form_data
  req_body :: jsstring

definition form_toString :: "form_data \<Rightarrow> jsstring" where
  "form_toString form = js ''[object FormData]''"

text \<open>What \<open>fetch\<close> does: it throws (with a message), or returns a status and a body text.\<close>

datatype fetch_result = FetchThrows jsstring | FetchResponse nat jsstring

text \<open>
  What the handler takes from its surroundings: the temp directory, the answer of the
  webhook to a URL and a body, and the text the runtime gives a number of magnitude
  \<open>2^53\<close> or more.
\<close>

record runtime =
  tmpdir :: path
  fetch :: "jsstring \<Rightarrow> jsstring \<Rightarrow> fetch_result"
  large_toString :: "int \<Rightarrow> jsstring"

text \<open>
  The variables of one invocation of the handler, with the part of the world it acts on:
  the temp files that exist, the requests made to the webhook, the response sent (if
  any), whether the \<open>finish\<close> handler is suspended at an \<open>await\<close> that never resolves, and
  whether the process has exited on an uncaught exception.
\<close>

record upload =
  tempFilePath :: "path option"
  fileStream :: "write_stream option"
  fileName :: jsstring
  clipSize :: jsstring
  clipDuration :: jsstring
  clipCount :: number
  fileReceived :: bool
  files :: "path set"
  posted :: "request list"
  res :: "response option"
  suspended :: bool
  exited :: bool

definition initial_upload :: "path set \<Rightarrow> upload" where
  "initial_upload fs =
     \<lparr> tempFilePath = None, fileStream = None, fileName = [], clipSize = [],
       clipDuration = [], clipCount = Num 1, fileReceived = False, files = fs,
       posted = [], res = None, suspended = False, exited = False \<rparr>"

definition respond :: "nat \<Rightarrow> response_body \<Rightarrow> upload \<Rightarrow> upload" where
  "respond code b st = st \<lparr> res := Some \<lparr> status = code, body = b \<rparr> \<rparr>"

text \<open>\<open>if (tempFilePath && fs.existsSync(tempFilePath)) fs.unlinkSync(tempFilePath)\<close>\<close>

definition unlink_temp :: "upload \<Rightarrow> upload" where
  "unlink_temp st =
     (case tempFilePath st of
        None \<Rightarrow> st
      | Some p \<Rightarrow> if p = [] then st else st \<lparr> files := files st - {p} \<rparr>)"

text \<open>\<open>path.join(tempDir, `upload-${uniqueId}-${fileName}`)\<close>\<close>

definition temp_path :: "path \<Rightarrow> jsstring \<Rightarrow> jsstring \<Rightarrow> path" where
  "temp_path tempDir uniqueId name = tempDir @ js ''/upload-'' @ uniqueId @ js ''-'' @ name"

subsection \<open>The handlers\<close>

text \<open>A further part, or the end of the body, means the file part in progress has ended.\<close>

definition end_part :: "upload \<Rightarrow> upload" where
  "end_part st = (if fileStream st = Some Writing then st \<lparr> fileStream := Some Ended \<rparr> else st)"

definition on_field :: "jsstring \<Rightarrow> jsstring \<Rightarrow> upload \<Rightarrow> upload" where
  "on_field name v st =
     (let st = (if name = js ''clip_size'' then st \<lparr> clipSize := v \<rparr> else st);
          st = (if name = js ''clip_duration'' then st \<lparr> clipDuration := v \<rparr> else st);
          st = (if name = js ''clip_count'' then st \<lparr> clipCount := parseInt_or_1 v \<rparr> else st)
      in st)"

definition on_file :: "path \<Rightarrow> jsstring \<Rightarrow> jsstring \<Rightarrow> upload \<Rightarrow> upload" where
  "on_file tempDir filename uniqueId st =
     (let p = temp_path tempDir uniqueId filename
      in st \<lparr> fileName := filename, fileReceived := True, tempFilePath := Some p,
              fileStream := Some Writing, files := insert p (files st) \<rparr>)"

text \<open>
  The \<open>limit\<close> handler: it destroys the write stream and removes the temp file. Nothing
  listens for errors of the write stream, and the pipe from the file part still writes
  to it: the error of writing to a destroyed stream is uncaught and the process exits
  (see \<open>handle_events\<close>).
\<close>

definition on_limit :: "upload \<Rightarrow> upload" where
  "on_limit st =
     unlink_temp
       (case fileStream st of None \<Rightarrow> st | Some w \<Rightarrow> st \<lparr> fileStream := Some Destroyed \<rparr>)"

definition webhook_form :: "runtime \<Rightarrow> upload \<Rightarrow> path \<Rightarrow> form_data" where
  "webhook_form rt st p =
     \<lparr> form_fields =
         [(js ''video_type'', js ''mp4''),
          (js ''file_name'', fileName st),
          (js ''clip_size'', clipSize st),
          (js ''clip_duration'', clipDuration st),
          (js ''clip_count'', number_toString (large_toString rt) (clipCount st))],
       form_file =
         \<lparr> part_name = js ''file'', part_path = p, part_filename = fileName st,
           part_contentType = js ''video/mp4'' \<rparr> \<rparr>"

definition response_ok :: "nat \<Rightarrow> bool" where
  "response_ok code = (200 \<le> code \<and> code \<le> 299)"

text \<open>
  The \<open>finish\<close> handler from the point where the write stream has finished: the form is
  built and given to \<open>fetch\<close>, the temp file is removed, the webhook's answer is relayed.
\<close>

definition forward :: "runtime \<Rightarrow> jsstring \<Rightarrow> path \<Rightarrow> upload \<Rightarrow> upload" where
  "forward rt webhookUrl p st =
     (let form = webhook_form rt st p;
          st = st \<lparr> posted := posted st @
                   [\<lparr> req_url = webhookUrl, req_form = form, req_body = form_toString form \<rparr>] \<rparr>
      in case fetch rt webhookUrl (form_toString form) of
           FetchThrows message \<Rightarrow> respond 500 (ErrorBody message) (unlink_temp st)
         | FetchResponse code text \<Rightarrow>
             let st = unlink_temp st
             in if \<not> response_ok code
                then respond code
                       (ErrorBody (if text \<noteq> [] then text
                          else js ''Webhook returned status '' @ nat_digits code))
                       st
                else respond 200
                       (SuccessBody (if text \<noteq> [] then text
                          else js ''Video submitted successfully''))
                       st)"

text \<open>
  The \<open>finish\<close> handler. After its two checks it waits for the \<open>finish\<close> event of the write
  stream. Where the stream has already finished, or was destroyed, the event never
  comes: the handler stays suspended, nothing is posted, no response is sent and the
  temp file stays. Where the event is still to come (\<open>finishes\<close>), the handler goes on.
\<close>

definition on_finish :: "runtime \<Rightarrow> jsstring \<Rightarrow> bool \<Rightarrow> upload \<Rightarrow> upload" where
  "on_finish rt webhookUrl finishes st =
     (case tempFilePath st of
        None \<Rightarrow> respond 400 (ErrorBody (js ''No file uploaded'')) st
      | Some p \<Rightarrow>
          if \<not> fileReceived st \<or> p = []
          then respond 400 (ErrorBody (js ''No file uploaded'')) st
          else if clipSize st = [] \<or> clipDuration st = []
          then respond 400 (ErrorBody (js ''Missing clip configuration'')) (unlink_temp st)
          else
            (case fileStream st of
               None \<Rightarrow> forward rt webhookUrl p st
             | Some Finished \<Rightarrow> st \<lparr> suspended := True \<rparr>
             | Some Destroyed \<Rightarrow> st \<lparr> suspended := True \<rparr>
             | Some w \<Rightarrow>
                 if finishes then forward rt webhookUrl p (st \<lparr> fileStream := Some Finished \<rparr>)
                 else st \<lparr> suspended := True \<rparr>))"

definition on_error :: "upload \<Rightarrow> upload" where
  "on_error st = respond 500 (ErrorBody (js ''Upload failed'')) (unlink_temp st)"

definition on_stream_finish :: "upload \<Rightarrow> upload" where
  "on_stream_finish st =
     (if fileStream st = Some Ended then st \<lparr> fileStream := Some Finished \<rparr> else st)"

text \<open>
  The events, in order.
  \<^item> After the limit handler the process exits, and nothing more is handled.
  \<^item> A parser error while a file part is in progress destroys the part's stream with the
    error; nothing listens for it, and the process exits before the \<open>error\<close> handler runs.
    Otherwise the \<open>error\<close> handler answers.
  \<^item> After the parser's \<open>finish\<close> the only event that matters is the write stream's
    \<open>finish\<close>, if it is still to come.
\<close>

fun handle_events :: "runtime \<Rightarrow> jsstring \<Rightarrow> upload_event list \<Rightarrow> upload \<Rightarrow> upload" where
  "handle_events rt url [] st = st"
| "handle_events rt url (Field name v # evs) st =
     handle_events rt url evs (on_field name v (end_part st))"
| "handle_events rt url (File name filename uniqueId # evs) st =
     handle_events rt url evs (on_file (tmpdir rt) filename uniqueId (end_part st))"
| "handle_events rt url (FileEnd # evs) st = handle_events rt url evs (end_part st)"
| "handle_events rt url (StreamFinish # evs) st = handle_events rt url evs (on_stream_finish st)"
| "handle_events rt url (Limit # evs) st = (on_limit st) \<lparr> exited := True \<rparr>"
| "handle_events rt url (Finish # evs) st =
     on_finish rt url (StreamFinish \<in> set evs) (end_part st)"
| "handle_events rt url (Error # evs) st =
     (if fileStream st = Some Writing then st \<lparr> exited := True \<rparr> else on_error st)"

text \<open>
  The route handler: the webhook URL stored for the user (\<open>None\<close> when the setting is
  missing or empty), the outcome of constructing the parser from the request headers
  (\<open>Some message\<close> when the constructor throws, which the outer \<open>catch\<close> answers), and then
  the events.
\<close>

definition upload_video ::
  "jsstring option \<Rightarrow> jsstring option \<Rightarrow> runtime \<Rightarrow> path set \<Rightarrow> upload_event list \<Rightarrow> upload" where
  "upload_video webhookUrl busboy_throws rt fs evs =
     (case webhookUrl of
        None \<Rightarrow>
          respond 400
            (ErrorBody (js ''Webhook URL not configured. Please add your n8n webhook URL in Settings.''))
            (initial_upload fs)
      | Some url \<Rightarrow>
          if url = [] then
            respond 400
              (ErrorBody (js ''Webhook URL not configured. Please add your n8n webhook URL in Settings.''))
              (initial_upload fs)
          else
            (case busboy_throws of
               Some message \<Rightarrow> respond 500 (ErrorBody message) (unlink_temp (initial_upload fs))
             | None \<Rightarrow> handle_events rt url evs (initial_upload fs)))"

subsection \<open>What the client supplied, read off the events\<close>

text \<open>The events after which the handlers of the parser's events run no more.\<close>

definition is_terminal :: "upload_event \<Rightarrow> bool" where
  "is_terminal e = (e = Limit \<or> e = Finish \<or> e = Error)"

text \<open>The events the handlers react to: those before the first terminal one.\<close>

definition received :: "upload_event list \<Rightarrow> upload_event list" where
  "received evs = takeWhile (\<lambda>e. \<not> is_terminal e) evs"

text \<open>The value of the last field of a name, and the file name of the last file part.\<close>

fun last_field :: "jsstring \<Rightarrow> upload_event list \<Rightarrow> jsstring option" where
  "last_field name [] = None"
| "last_field name (Field n v # evs) =
     (case last_field name evs of
        Some w \<Rightarrow> Some w
      | None \<Rightarrow> if n = name then Some v else None)"
| "last_field name (e # evs) = last_field name evs"

fun last_file :: "upload_event list \<Rightarrow> (jsstring \<times> jsstring) option" where
  "last_file [] = None"
| "last_file (File n filename uniqueId # evs) =
     (case last_file evs of
        Some f \<Rightarrow> Some f
      | None \<Rightarrow> Some (filename, uniqueId))"
| "last_file (e # evs) = last_file evs"

subsection \<open>Predicates on the handler's variables\<close>

text \<open>The recorded temp file is absent: no path is recorded, or no file exists at it.\<close>

definition temp_file_absent :: "upload \<Rightarrow> bool" where
  "temp_file_absent st = (case tempFilePath st of None \<Rightarrow> True | Some p \<Rightarrow> p \<notin> files st)"

text \<open>
  What holds of the variables between events: a path is recorded exactly when a write
  stream was opened, it is not empty, and a file was then received.
\<close>

definition handler_invariant :: "upload \<Rightarrow> bool" where
  "handler_invariant st =
     (case tempFilePath st of
        None \<Rightarrow> fileStream st = None
      | Some p \<Rightarrow> p \<noteq> [] \<and> fileReceived st \<and> fileStream st \<noteq> None)"

subsection \<open>Sample requests\<close>

definition hook :: jsstring where
  "hook = js ''https://hook.example/clips''"

text \<open>
  A runtime for the samples: the webhook answers 200 with the text \<open>ok\<close>; of the large
  numbers it holds the text of \<open>2^53\<close> and of \<open>10^21\<close>, and the samples use no other.
\<close>

definition sample_runtime :: runtime where
  "sample_runtime =
     \<lparr> tmpdir = js ''/tmp'',
       fetch = (\<lambda>url body. FetchResponse 200 (js ''ok'')),
       large_toString =
         (\<lambda>n. if n = 9007199254740992 then js ''9007199254740992'' else js ''1e+21'') \<rparr>"

text \<open>
  An upload as the client page sends it, the file part first; the write stream finishes
  after the parser.
\<close>

definition upload_events :: "jsstring \<Rightarrow> upload_event list" where
  "upload_events count =
     [File (js ''file'') (js ''a.mp4'') (js ''17-x1''),
      Field (js ''clip_size'') (js ''1080x1920''),
      Field (js ''clip_duration'') (js ''30''),
      Field (js ''clip_count'') count,
      Finish,
      StreamFinish]"

text \<open>The same upload, the write stream finishing before the parser does.\<close>

definition early_finish_events :: "upload_event list" where
  "early_finish_events =
     [File (js ''file'') (js ''a.mp4'') (js ''17-x1''),
      FileEnd,
      StreamFinish,
      Field (js ''clip_size'') (js ''1080x1920''),
      Field (js ''clip_duration'') (js ''30''),
      Field (js ''clip_count'') (js ''1''),
      Finish]"

text \<open>An upload whose file part reaches the size limit.\<close>

definition oversize_events :: "upload_event list" where
  "oversize_events =
     [File (js ''file'') (js ''big.mp4'') (js ''17-x1''),
      Limit,
      Field (js ''clip_size'') (js ''1080x1920''),
      Field (js ''clip_duration'') (js ''30''),
      Field (js ''clip_count'') (js ''1''),
      Finish]"

text \<open>An upload cut off inside the file part.\<close>

definition truncated_events :: "upload_event list" where
  "truncated_events = [File (js ''file'') (js ''a.mp4'') (js ''17-x1''), Error]"

section \<open>Settings (POST /api/settings in server/routes.ts)\<close>














subsection \<open>Sample settings\<close>



section \<open>Encodings: round trips\<close>

lemma split64: "(n::nat) = n div 64 * 64 + n mod 64 \<and> n mod 64 < 64"
  by simp

lemma decode_two_digits:
  "2 \<le> a \<Longrightarrow> a \<le> 31 \<Longrightarrow> b < 64 \<Longrightarrow>
   decode_utf8 ([192 + a, 128 + b] @ rest) = (a * 64 + b) # decode_utf8 rest"
  by (simp add: is_cont_def)

lemma decode_three_digits:
  "a \<le> 15 \<Longrightarrow> b < 64 \<Longrightarrow> c < 64 \<Longrightarrow> (a = 0 \<longrightarrow> 32 \<le> b) \<Longrightarrow> (a = 13 \<longrightarrow> b \<le> 31) \<Longrightarrow>
   decode_utf8 ([224 + a, 128 + b, 128 + c] @ rest) = (a * 4096 + b * 64 + c) # decode_utf8 rest"
  by (simp add: is_cont_def)

lemma decode_four_digits:
  "a \<le> 4 \<Longrightarrow> b < 64 \<Longrightarrow> c < 64 \<Longrightarrow> d < 64 \<Longrightarrow> (a = 0 \<longrightarrow> 16 \<le> b) \<Longrightarrow> (a = 4 \<longrightarrow> b \<le> 15) \<Longrightarrow>
   decode_utf8 ([240 + a, 128 + b, 128 + c, 128 + d] @ rest)
     = (a * 262144 + b * 4096 + c * 64 + d) # decode_utf8 rest"
  by (simp add: is_cont_def)

lemma decode_one:
  assumes "cp < 128"
  shows "decode_utf8 (utf8_bytes cp @ rest) = cp # decode_utf8 rest"
  using assms by (simp add: utf8_bytes_def)

lemma decode_two:
  assumes "128 \<le> cp" "cp < 2048"
  shows "decode_utf8 (utf8_bytes cp @ rest) = cp # decode_utf8 rest"
proof -
  define b where "b = cp mod 64"
  define a where "a = cp div 64"
  have e: "cp = a * 64 + b" "b < 64" using split64 [of cp] by (simp_all add: a_def b_def)
  have bytes: "utf8_bytes cp = [192 + a, 128 + b]"
    using assms by (simp add: utf8_bytes_def a_def b_def)
  have "2 \<le> a" "a \<le> 31" using e assms by linarith+
  then show ?thesis using decode_two_digits [of a b rest] e bytes by simp
qed

lemma decode_three:
  assumes "2048 \<le> cp" "cp < 65536" "\<not> (55296 \<le> cp \<and> cp \<le> 57343)"
  shows "decode_utf8 (utf8_bytes cp @ rest) = cp # decode_utf8 rest"
proof -
  define c where "c = cp mod 64"
  define q where "q = cp div 64"
  define b where "b = q mod 64"
  define a where "a = q div 64"
  have e1: "cp = q * 64 + c" "c < 64" using split64 [of cp] by (simp_all add: q_def c_def)
  have e2: "q = a * 64 + b" "b < 64" using split64 [of q] by (simp_all add: a_def b_def)
  have d: "cp div 4096 = a" by (simp add: a_def q_def div_mult2_eq [symmetric])
  have bytes: "utf8_bytes cp = [224 + a, 128 + b, 128 + c]"
    using assms d by (simp add: utf8_bytes_def b_def c_def q_def)
  have f: "a \<le> 15" "a = 0 \<longrightarrow> 32 \<le> b" "a = 13 \<longrightarrow> b \<le> 31" "a * 4096 + b * 64 + c = cp"
    using e1 e2 assms by linarith+
  show ?thesis using decode_three_digits [of a b c rest] e1 e2 f bytes by simp
qed

lemma decode_four:
  assumes "65536 \<le> cp" "cp < 1114112"
  shows "decode_utf8 (utf8_bytes cp @ rest) = cp # decode_utf8 rest"
proof -
  define d where "d = cp mod 64"
  define q where "q = cp div 64"
  define c where "c = q mod 64"
  define r where "r = q div 64"
  define b where "b = r mod 64"
  define a where "a = r div 64"
  have e1: "cp = q * 64 + d" "d < 64" using split64 [of cp] by (simp_all add: q_def d_def)
  have e2: "q = r * 64 + c" "c < 64" using split64 [of q] by (simp_all add: r_def c_def)
  have e3: "r = a * 64 + b" "b < 64" using split64 [of r] by (simp_all add: a_def b_def)
  have d1: "cp div 4096 = r" by (simp add: r_def q_def div_mult2_eq [symmetric])
  have d2: "cp div 262144 = a" by (simp add: a_def r_def q_def div_mult2_eq [symmetric])
  have bytes: "utf8_bytes cp = [240 + a, 128 + b, 128 + c, 128 + d]"
    using assms d1 d2 by (simp add: utf8_bytes_def b_def c_def d_def q_def)
  have f: "a \<le> 4" "a = 0 \<longrightarrow> 16 \<le> b" "a = 4 \<longrightarrow> b \<le> 15"
    "a * 262144 + b * 4096 + c * 64 + d = cp"
    using e1 e2 e3 assms by linarith+
  show ?thesis using decode_four_digits [of a b c d rest] e1 e2 e3 f bytes by simp
qed

lemma decode_scalar:
  "is_scalar cp \<Longrightarrow> decode_utf8 (utf8_bytes cp @ rest) = cp # decode_utf8 rest"
  using decode_one [of cp rest] decode_two [of cp rest] decode_three [of cp rest]
    decode_four [of cp rest]
  unfolding is_scalar_def by linarith


lemma unat_of_nat8: "n < 256 \<Longrightarrow> unat (of_nat n :: byte) = n"
  by (simp add: unat_of_nat)

lemma unat_of_nat16: "n < 65536 \<Longrightarrow> unat (of_nat n :: jschar) = n"
  by (simp add: unat_of_nat)

lemma unat8_less: "unat (b :: byte) < 256"
  using unsigned_less [of b, where 'a = nat] by simp

lemma unat16_less: "unat (c :: jschar) < 65536"
  using unsigned_less [of c, where 'a = nat] by simp

lemma utf8_bytes_small:
  assumes "cp < 1114112" and "b \<in> set (utf8_bytes cp)"
  shows "b < 256"
proof -
  have m: "\<And>n::nat. 128 + n mod 64 < 256"
    using split64 by (simp add: less_imp_le_nat)
  have a2: "cp < 2048 \<Longrightarrow> 192 + cp div 64 < 256"
    by (simp add: div_less_iff_less_mult)
  have a3: "cp < 65536 \<Longrightarrow> 224 + cp div 4096 < 256"
    by (simp add: div_less_iff_less_mult)
  have a4: "240 + cp div 262144 < 256"
    using assms(1) by (simp add: div_less_iff_less_mult)
  show ?thesis
    using assms(2) m a2 a3 a4 by (auto simp: utf8_bytes_def split: if_splits)
qed

lemma map_unat_of_nat:
  "\<forall>b \<in> set xs. b < 256 \<Longrightarrow> map unat (map of_nat xs :: buffer) = xs"
  by (induction xs) (simp_all add: unat_of_nat8)

lemma decode_concat:
  "\<forall>cp \<in> set cps. is_scalar cp \<Longrightarrow> decode_utf8 (concat (map utf8_bytes cps)) = cps"
  by (induction cps) (simp_all add: decode_scalar)

lemma pair_scalar:
  assumes "is_high_surrogate h" "is_low_surrogate l"
  shows "is_scalar (65536 + (unat h - 55296) * 1024 + (unat l - 56320))"
  using assms unfolding is_scalar_def is_high_surrogate_def is_low_surrogate_def by linarith

lemma unit_scalar:
  "\<not> is_high_surrogate c \<Longrightarrow> \<not> is_low_surrogate c \<Longrightarrow> is_scalar (unat c)"
  using unat16_less [of c]
  unfolding is_scalar_def is_high_surrogate_def is_low_surrogate_def by linarith

lemma code_points_scalar: "\<forall>cp \<in> set (code_points s). is_scalar cp"
proof (induction s rule: code_points.induct)
  case 1
  then show ?case by simp
next
  case (2 c)
  then show ?case using unit_scalar [of c] by (simp add: is_scalar_def)
next
  case (3 h l cs)
  then show ?case
    using unit_scalar [of h] pair_scalar [of h l] by (simp add: is_scalar_def)
qed

lemma utf16_units_unit:
  "utf16_units (unat c) = [c]"
  using unat16_less [of c] by (simp add: utf16_units_def)

lemma utf16_units_pair:
  assumes "is_high_surrogate h" "is_low_surrogate l"
  shows "utf16_units (65536 + (unat h - 55296) * 1024 + (unat l - 56320)) = [h, l]"
proof -
  define x where "x = unat h - 55296"
  define y where "y = unat l - 56320"
  have b: "y < 1024" "55296 + x = unat h" "56320 + y = unat l"
    using assms unfolding x_def y_def is_high_surrogate_def is_low_surrogate_def by linarith+
  have "(x * 1024 + y) div 1024 = x" "(x * 1024 + y) mod 1024 = y"
    using b(1) by simp_all
  then show ?thesis
    using b by (simp add: utf16_units_def x_def [symmetric] y_def [symmetric])
qed

lemma utf16_of_code_points:
  "isWellFormed s \<Longrightarrow> concat (map utf16_units (code_points s)) = s"
proof (induction s rule: code_points.induct)
  case 1
  then show ?case by simp
next
  case (2 c)
  then show ?case by (simp add: utf16_units_unit)
next
  case (3 h l cs)
  then show ?case
    by (auto simp: utf16_units_unit utf16_units_pair split: if_splits)
qed

lemma utf8_round_trip: "isWellFormed s \<Longrightarrow> utf8_decode (utf8_encode s) = s"
proof -
  assume wf: "isWellFormed s"
  have small: "\<forall>b \<in> set (concat (map utf8_bytes (code_points s))). b < 256"
    using code_points_scalar [of s] utf8_bytes_small
    by (auto simp: is_scalar_def)
  show ?thesis
    unfolding utf8_decode_def utf8_encode_def
    by (simp only: map_unat_of_nat [OF small] decode_concat [OF code_points_scalar]
        utf16_of_code_points [OF wf])
qed


lemma unat_hex_digit:
  assumes "n < 16"
  shows "unat (hex_digit n) = (if n < 10 then 48 + n else 87 + n)"
proof (cases "n < 10")
  case True
  have "unat (of_nat (48 + n) :: jschar) = 48 + n"
    by (rule unat_of_nat16) (use True in simp)
  then show ?thesis by (simp only: hex_digit_def True if_True)
next
  case False
  have "unat (of_nat (87 + n) :: jschar) = 87 + n"
    by (rule unat_of_nat16) (use assms in simp)
  then show ?thesis by (simp only: hex_digit_def False if_False)
qed

lemma unhex_hex_digit: "n < 16 \<Longrightarrow> unhex (hex_digit n) = Some n"
  by (simp add: unhex_def unat_hex_digit Let_def)

lemma hex_digit_not_colon: "n < 16 \<Longrightarrow> hex_digit n \<noteq> colon"
proof
  assume n: "n < 16" and "hex_digit n = colon"
  then have "unat (hex_digit n) = unat colon" by simp
  then show False using n
    by (simp add: unat_hex_digit colon_def split: if_splits)
qed

lemma split16: "(n::nat) = n div 16 * 16 + n mod 16 \<and> n mod 16 < 16"
  by simp

lemma byte_of_nibbles: "of_nat (16 * (unat b div 16) + unat b mod 16) = (b :: byte)"
proof -
  have "16 * (unat b div 16) + unat b mod 16 = unat b" by simp
  then show ?thesis by simp
qed

lemma nibble_high: "unat (b :: byte) div 16 < 16"
  using unat8_less [of b] by (simp add: div_less_iff_less_mult)

lemma fromHex_toHex: "fromHex (toHex bs) = bs"
  by (induction bs) (simp_all add: unhex_hex_digit nibble_high byte_of_nibbles)

lemma fromHex_toHex_append: "fromHex (toHex bs @ hs) = bs @ fromHex hs"
  by (induction bs) (simp_all add: unhex_hex_digit nibble_high byte_of_nibbles)

lemma colon_notin_toHex: "colon \<notin> set (toHex bs)"
  by (induction bs) (simp_all add: hex_digit_not_colon [symmetric] hex_digit_not_colon nibble_high)

lemma length_toHex: "length (toHex bs) = 2 * length bs"
  by (induction bs) simp_all

lemma js_split_nonempty: "js_split sep s \<noteq> []"
  by (induction s) (simp_all split: list.splits)

lemma js_split_no_sep: "sep \<notin> set a \<Longrightarrow> js_split sep a = [a]"
  by (induction a) auto

lemma js_split_append:
  "sep \<notin> set a \<Longrightarrow> js_split sep (a @ sep # r) = a # js_split sep r"
  by (induction a) auto

lemma js_split_envelope:
  assumes "sep \<notin> set a" "sep \<notin> set b" "sep \<notin> set c"
  shows "js_split sep (a @ [sep] @ b @ [sep] @ c) = [a, b, c]"
  using assms by (simp add: js_split_append js_split_no_sep)


subsection \<open>The envelope\<close>

lemma key_of_configured:
  assumes "key_configured env"
  shows "\<exists>k. k \<noteq> [] \<and> getEncryptionKey env lib = Inr (scryptSync lib k (js ''salt'') 32)"
  using assms
  by (auto simp: key_configured_def is_unset_def getEncryptionKey_def env_key_def
      split: option.splits)

lemma length_randomBytes: "length (randomBytes rnd n) = n"
  by (simp add: randomBytes_def)

lemma decrypt_try_envelope:
  assumes "getEncryptionKey env lib = Inr key"
  shows "decrypt_try env lib (toHex iv @ [colon] @ toHex tag @ [colon] @ toHex ct)
         = (case createDecipheriv lib key iv tag ct of
              Inl e \<Rightarrow> Inl e
            | Inr decrypted \<Rightarrow> Inr (utf8_decode decrypted))"
proof -
  have "js_split colon (toHex iv @ [colon] @ toHex tag @ [colon] @ toHex ct)
        = [toHex iv, toHex tag, toHex ct]"
    by (rule js_split_envelope) (rule colon_notin_toHex)+
  then show ?thesis
    by (simp add: decrypt_try_def assms fromHex_toHex length_toHex)
qed

lemma decrypt_encrypt:
  assumes "scrypt_length lib" and "gcm_correct lib" and "key_configured env" and "s \<noteq> []"
  shows "\<exists>e. encrypt env lib rnd s = Inr e
             \<and> decrypt env lib e = Inr (utf8_decode (utf8_encode s))"
proof -
  obtain k where k: "getEncryptionKey env lib = Inr (scryptSync lib k (js ''salt'') 32)"
    using key_of_configured [OF assms(3)] by blast
  define key where "key = scryptSync lib k (js ''salt'') 32"
  define iv where "iv = randomBytes rnd IV_LENGTH"
  define ct where "ct = fst (createCipheriv lib key iv (utf8_encode s))"
  define tag where "tag = snd (createCipheriv lib key iv (utf8_encode s))"
  define e where "e = toHex iv @ [colon] @ toHex tag @ [colon] @ toHex ct"
  have lk: "length key = 32" using assms(1) by (simp add: key_def scrypt_length_def)
  have li: "length iv = 16" by (simp add: iv_def length_randomBytes IV_LENGTH_def)
  have enc: "encrypt env lib rnd s = Inr e"
    using assms(4) k
    by (simp add: encrypt_def Let_def key_def iv_def ct_def tag_def e_def)
  have "createDecipheriv lib key iv tag ct = Inr (utf8_encode s)"
    using assms(2) lk li unfolding gcm_correct_def ct_def tag_def by blast
  then have "decrypt_try env lib e = Inr (utf8_decode (utf8_encode s))"
    using k decrypt_try_envelope [of env lib key iv tag ct] by (simp add: key_def e_def)
  moreover have "e \<noteq> []" by (simp add: e_def)
  ultimately have "decrypt env lib e = Inr (utf8_decode (utf8_encode s))"
    by (simp add: decrypt_def)
  with enc show ?thesis by blast
qed

subsection \<open>The reference instance\<close>

lemma ref_scrypt_length: "scrypt_length ref_crypto"
  by (simp add: scrypt_length_def ref_crypto_def)

lemma xor_mask_twice: "map (\<lambda>b. b XOR m) (map (\<lambda>b. b XOR m) pt) = (pt :: buffer)"
  by (induction pt) (simp_all add: xor.assoc)

lemma ref_createCipheriv:
  "createCipheriv ref_crypto key iv pt
   = (map (\<lambda>b. b XOR ref_mask key iv) pt,
      ref_tag key iv (map (\<lambda>b. b XOR ref_mask key iv) pt))"
  by (simp add: ref_crypto_def)

lemma ref_createDecipheriv:
  "createDecipheriv ref_crypto key iv tag ct
   = (if iv = [] \<or> length tag \<noteq> 16 \<or> tag \<noteq> ref_tag key iv ct then Inl CryptoError
      else Inr (map (\<lambda>b. b XOR ref_mask key iv) ct))"
  by (simp add: ref_crypto_def)

lemma length_ref_tag: "length (ref_tag key iv ct) = 16"
  by (simp add: ref_tag_def)

lemma ref_gcm_correct: "gcm_correct ref_crypto"
  unfolding gcm_correct_def
  by (auto simp: ref_createCipheriv ref_createDecipheriv length_ref_tag xor_mask_twice
      simp del: map_map)

lemma key_configured_env_with_key: "key_configured env_with_key"
  by (simp add: key_configured_def is_unset_def env_with_key_def js_def)

lemma replicate16: "replicate 16 x = [x, x, x, x, x, x, x, x, x, x, x, x, x, x, x, x]"
  by (simp add: numeral_eq_Suc)

lemma replicate15: "replicate 15 x = [x, x, x, x, x, x, x, x, x, x, x, x, x, x, x]"
  by (simp add: numeral_eq_Suc)

lemma foldr_xor_replicate_even:
  "foldr (XOR) (replicate (2 * n) (x :: byte)) m = m"
  by (induction n) (simp_all flip: xor.assoc)

lemma ref_key: "getEncryptionKey env_with_key ref_crypto = Inr (replicate 32 1)"
  by (simp add: getEncryptionKey_def env_key_def env_with_key_def ref_crypto_def js_def)

lemma ref_iv: "randomBytes (\<lambda>i. 0) IV_LENGTH = replicate 16 0"
  by (simp add: randomBytes_def IV_LENGTH_def map_replicate_const)

lemma ref_mask_value: "ref_mask (replicate 32 1) (replicate 16 0) = 90"
  using foldr_xor_replicate_even [of 16 1 "foldr (XOR) (replicate 16 (0 :: byte)) 90"]
    foldr_xor_replicate_even [of 8 0 90]
  by (simp add: ref_mask_def)

lemma toHex_zero_iv: "toHex (replicate 16 0) = js ''00000000000000000000000000000000''"
  by (simp add: replicate16 hex_digit_def js_def)

lemma ref_encrypt_surrogate:
  "encrypt env_with_key ref_crypto (\<lambda>i. 0) [55296]
   = Inr (js ''00000000000000000000000000000000:ed000000000000000000000000000000:b5e5e7'')"
proof -
  have u: "utf8_encode [55296] = [239, 191, 189]"
    by (simp add: utf8_encode_def utf8_bytes_def is_high_surrogate_def)
  show ?thesis
    by (simp add: encrypt_def ref_key ref_iv u Let_def ref_createCipheriv ref_mask_value
        ref_tag_def)
       (simp add: hex_digit_def replicate15 replicate16 js_def colon_def)
qed


lemma ref_encrypt_hi:
  "encrypt env_with_key ref_crypto (\<lambda>i. 0) (js ''hi'')
   = Inr (js ''00000000000000000000000000000000:5b000000000000000000000000000000:3233'')"
proof -
  have u: "utf8_encode (js ''hi'') = [104, 105]"
    by (simp add: utf8_encode_def utf8_bytes_def is_high_surrogate_def is_low_surrogate_def
        js_def)
  have n: "js ''hi'' \<noteq> []" by (simp add: js_def)
  show ?thesis
    by (simp add: encrypt_def n ref_key ref_iv u Let_def ref_createCipheriv ref_mask_value
        ref_tag_def)
       (simp add: hex_digit_def replicate15 replicate16 js_def colon_def)
qed


section \<open>Empty input\<close>

text \<open>
  C9. \<open>encrypt("")\<close> is \<open>""\<close> and \<open>decrypt("")\<close> is \<open>""\<close>, whatever the environment and the
  library: an empty secret is stored as the empty value, not as an envelope.
\<close>

theorem empty_input_identity:
  "encrypt env lib rnd [] = Inr [] \<and> decrypt env lib [] = Inr []"
  by (simp add: encrypt_def decrypt_def)

section \<open>Malformed envelopes and failures inside decrypt\<close>

lemma decrypt_Inr: "\<exists>s. decrypt env lib x = Inr s"
  by (simp add: decrypt_def split: sum.splits)

lemma decrypt_not_three:
  "length (js_split colon x) \<noteq> 3 \<Longrightarrow> decrypt env lib x = Inr []"
  by (simp add: decrypt_def decrypt_try_def split: sum.splits)

lemma decrypt_caught: "decrypt_try env lib x = Inl e \<Longrightarrow> decrypt env lib x = Inr []"
  by (simp add: decrypt_def)

lemma split_seven_parts:
  "length (js_split colon (js ''not:a:valid:envelope:with:six:parts'')) = 7"
  by (simp add: js_def colon_def)

lemma split_one_part: "length (js_split colon (js ''justonepart'')) = 1"
  by (simp add: js_def colon_def)

lemma split_two_parts: "length (js_split colon (js ''ab:cd'')) = 2"
  by (simp add: js_def colon_def)

lemma ref_bad_tag:
  "decrypt_try env_with_key ref_crypto (js ''00:00:00'') = Inl CryptoError"
  by (simp add: decrypt_try_def ref_key ref_createDecipheriv js_def colon_def unhex_def)

text \<open>
  C4. \<open>decrypt\<close> returns a string on every input and never raises. An input that does not
  split on \<open>:\<close> into exactly three parts yields the empty string, and so does every
  exception thrown inside the \<open>try\<close> block (a missing key, an invalid initialization vector
  or tag, a failed authentication). The two envelopes of the specification yield the
  empty string.
\<close>

theorem decrypt_never_raises:
  "(\<exists>s. decrypt env lib x = Inr s)
   \<and> (length (js_split colon x) \<noteq> 3 \<longrightarrow> decrypt env lib x = Inr [])
   \<and> (\<forall>e. decrypt_try env lib x = Inl e \<longrightarrow> decrypt env lib x = Inr [])
   \<and> decrypt env lib (js ''not:a:valid:envelope:with:six:parts'') = Inr []
   \<and> decrypt env lib (js ''justonepart'') = Inr []"
proof -
  have six: "decrypt env lib (js ''not:a:valid:envelope:with:six:parts'') = Inr []"
    by (rule decrypt_not_three) (simp add: split_seven_parts)
  have one: "decrypt env lib (js ''justonepart'') = Inr []"
    by (rule decrypt_not_three) (simp add: split_one_part)
  show ?thesis
    using decrypt_Inr [of env lib x] decrypt_not_three [of x env lib]
      decrypt_caught [of env lib x] six one
    by blast
qed

theorem decrypt_never_raises_witness:
  "length (js_split colon (js ''ab:cd'')) \<noteq> 3
   \<and> decrypt env_with_key ref_crypto (js ''ab:cd'') = Inr []
   \<and> decrypt_try env_with_key ref_crypto (js ''00:00:00'') = Inl CryptoError
   \<and> decrypt env_with_key ref_crypto (js ''00:00:00'') = Inr []"
  using decrypt_never_raises [of env_with_key ref_crypto "js ''ab:cd''"]
    decrypt_never_raises [of env_with_key ref_crypto "js ''00:00:00''"]
    ref_bad_tag split_two_parts
  by simp

section \<open>No key in the environment\<close>

text \<open>
  C8, as the code has it. When neither \<open>ENCRYPTION_KEY\<close> nor \<open>SESSION_SECRET\<close> is set (or
  both are empty), \<open>encrypt\<close> raises on every non-empty input. \<open>decrypt\<close> does not raise:
  \<open>getEncryptionKey\<close> is called inside its \<open>try\<close> block, the exception is caught, and
  \<open>decrypt\<close> returns the empty string.
\<close>

theorem missing_key:
  assumes "is_unset (ENCRYPTION_KEY env)" and "is_unset (SESSION_SECRET env)"
  shows "(text \<noteq> [] \<longrightarrow> encrypt env lib rnd text = Inl MissingKey)
         \<and> decrypt_try env lib x = Inl MissingKey
         \<and> decrypt env lib x = Inr []"
proof -
  have k: "getEncryptionKey env lib = Inl MissingKey"
    using assms by (auto simp: getEncryptionKey_def env_key_def is_unset_def)
  show ?thesis
    by (simp add: k encrypt_def decrypt_try_def decrypt_def)
qed

theorem missing_key_witness:
  "is_unset (ENCRYPTION_KEY env_without_key) \<and> is_unset (SESSION_SECRET env_without_key)
   \<and> js ''sk-1'' \<noteq> []
   \<and> encrypt env_without_key ref_crypto (\<lambda>i. 0) (js ''sk-1'') = Inl MissingKey
   \<and> decrypt env_without_key ref_crypto (js ''00:00:00'') = Inr []"
proof -
  have u: "is_unset (ENCRYPTION_KEY env_without_key)" "is_unset (SESSION_SECRET env_without_key)"
    by (simp_all add: is_unset_def env_without_key_def)
  have n: "js ''sk-1'' \<noteq> []" by (simp add: js_def)
  show ?thesis
    using missing_key [OF u, of "js ''sk-1''" ref_crypto "\<lambda>i. 0" "js ''00:00:00''"] u n
    by simp
qed

text \<open>
  The claim as stated, that \<open>decrypt\<close> raises on a non-empty envelope when no key is set,
  fails: with both variables unset, \<open>decrypt("00:00:00")\<close> returns the empty string.
\<close>

theorem decrypt_without_key_returns:
  "js ''00:00:00'' \<noteq> []
   \<and> ENCRYPTION_KEY env_without_key = None \<and> SESSION_SECRET env_without_key = None
   \<and> decrypt env_without_key ref_crypto (js ''00:00:00'') = Inr []"
  by (simp add: decrypt_def decrypt_try_def getEncryptionKey_def env_key_def
      env_without_key_def js_def)

section \<open>Round trip\<close>

text \<open>
  C1, as the code has it. With a key configured, and a library that derives a key of the length asked for and
  deciphers what it enciphered, \<open>decrypt (encrypt s)\<close> is \<open>s\<close> for every non-empty string
  \<open>s\<close> that is well formed, that is, has no surrogate code unit on its own. (A string with
  an unpaired surrogate comes back with U+FFFD in its place: see the counterexample.)
\<close>

theorem round_trip:
  assumes "scrypt_length lib" and "gcm_correct lib" and "key_configured env"
    and "s \<noteq> []" and "isWellFormed s"
  shows "\<exists>e. encrypt env lib rnd s = Inr e \<and> decrypt env lib e = Inr s"
  using decrypt_encrypt [OF assms(1-4), of rnd] utf8_round_trip [OF assms(5)] by simp

theorem round_trip_witness:
  "scrypt_length ref_crypto \<and> gcm_correct ref_crypto \<and> key_configured env_with_key
   \<and> js ''hi'' \<noteq> [] \<and> isWellFormed (js ''hi'')
   \<and> encrypt env_with_key ref_crypto (\<lambda>i. 0) (js ''hi'')
       = Inr (js ''00000000000000000000000000000000:5b000000000000000000000000000000:3233'')
   \<and> decrypt env_with_key ref_crypto
         (js ''00000000000000000000000000000000:5b000000000000000000000000000000:3233'')
       = Inr (js ''hi'')"
proof -
  have n: "js ''hi'' \<noteq> []" by (simp add: js_def)
  have w: "isWellFormed (js ''hi'')"
    by (simp add: js_def is_high_surrogate_def is_low_surrogate_def)
  show ?thesis
    using round_trip [OF ref_scrypt_length ref_gcm_correct key_configured_env_with_key n w,
        of "\<lambda>i. 0"]
      ref_scrypt_length ref_gcm_correct key_configured_env_with_key n w ref_encrypt_hi
    by auto
qed

text \<open>
  The claim as stated, for every non-empty string, fails at the one-unit string U+D800:
  the UTF-8 encoder writes it as EF BF BD, and decrypting the envelope returns U+FFFD.
\<close>

theorem round_trip_unpaired_surrogate:
  "[55296] \<noteq> ([] :: jsstring)
   \<and> encrypt env_with_key ref_crypto (\<lambda>i. 0) [55296]
       = Inr (js ''00000000000000000000000000000000:ed000000000000000000000000000000:b5e5e7'')
   \<and> decrypt env_with_key ref_crypto
         (js ''00000000000000000000000000000000:ed000000000000000000000000000000:b5e5e7'')
       = Inr [65533]
   \<and> [65533] \<noteq> ([55296] :: jsstring)"
proof -
  have n: "[55296] \<noteq> ([] :: jsstring)" by simp
  have u: "utf8_decode (utf8_encode [55296]) = [65533]"
    by (simp add: utf8_encode_def utf8_bytes_def is_high_surrogate_def utf8_decode_def
        is_cont_def utf16_units_def)
  show ?thesis
    using decrypt_encrypt [OF ref_scrypt_length ref_gcm_correct key_configured_env_with_key n,
        of "\<lambda>i. 0"]
      ref_encrypt_surrogate u
    by auto
qed

text \<open>
  Whatever the library, the unpaired surrogate is lost: the envelope decrypts to U+FFFD.
\<close>

lemma unpaired_surrogate_replaced:
  assumes "scrypt_length lib" and "gcm_correct lib" and "key_configured env"
  shows "\<exists>e. encrypt env lib rnd [55296] = Inr e \<and> decrypt env lib e = Inr [65533]"
proof -
  have u: "utf8_decode (utf8_encode [55296]) = [65533]"
    by (simp add: utf8_encode_def utf8_bytes_def is_high_surrogate_def utf8_decode_def
        is_cont_def utf16_units_def)
  show ?thesis
    using decrypt_encrypt [OF assms, of "[55296]" rnd] u by simp
qed

section \<open>Tamper rejection\<close>



lemma nibble_low: "unat (b :: byte) mod 16 < 16"
  by simp

















section \<open>Upload relay: the handler's variables\<close>

lemma respond_simps:
  "tempFilePath (respond c b st) = tempFilePath st"
  "fileStream (respond c b st) = fileStream st"
  "fileName (respond c b st) = fileName st"
  "clipSize (respond c b st) = clipSize st"
  "clipDuration (respond c b st) = clipDuration st"
  "clipCount (respond c b st) = clipCount st"
  "fileReceived (respond c b st) = fileReceived st"
  "files (respond c b st) = files st"
  "posted (respond c b st) = posted st"
  "res (respond c b st) = Some \<lparr> status = c, body = b \<rparr>"
  "suspended (respond c b st) = suspended st"
  "exited (respond c b st) = exited st"
  by (simp_all add: respond_def)

lemma unlink_temp_simps:
  "tempFilePath (unlink_temp st) = tempFilePath st"
  "fileStream (unlink_temp st) = fileStream st"
  "fileName (unlink_temp st) = fileName st"
  "clipSize (unlink_temp st) = clipSize st"
  "clipDuration (unlink_temp st) = clipDuration st"
  "clipCount (unlink_temp st) = clipCount st"
  "fileReceived (unlink_temp st) = fileReceived st"
  "posted (unlink_temp st) = posted st"
  "res (unlink_temp st) = res st"
  "suspended (unlink_temp st) = suspended st"
  "exited (unlink_temp st) = exited st"
  by (simp_all add: unlink_temp_def split: option.splits)

lemma files_unlink_temp:
  "files (unlink_temp st)
   = (case tempFilePath st of None \<Rightarrow> files st
      | Some p \<Rightarrow> if p = [] then files st else files st - {p})"
  by (simp add: unlink_temp_def split: option.splits)

lemma end_part_simps:
  "tempFilePath (end_part st) = tempFilePath st"
  "fileStream (end_part st) = (if fileStream st = Some Writing then Some Ended else fileStream st)"
  "fileName (end_part st) = fileName st"
  "clipSize (end_part st) = clipSize st"
  "clipDuration (end_part st) = clipDuration st"
  "clipCount (end_part st) = clipCount st"
  "fileReceived (end_part st) = fileReceived st"
  "files (end_part st) = files st"
  "posted (end_part st) = posted st"
  "res (end_part st) = res st"
  "suspended (end_part st) = suspended st"
  "exited (end_part st) = exited st"
  by (simp_all add: end_part_def)

lemma on_stream_finish_simps:
  "tempFilePath (on_stream_finish st) = tempFilePath st"
  "fileStream (on_stream_finish st)
   = (if fileStream st = Some Ended then Some Finished else fileStream st)"
  "fileName (on_stream_finish st) = fileName st"
  "clipSize (on_stream_finish st) = clipSize st"
  "clipDuration (on_stream_finish st) = clipDuration st"
  "clipCount (on_stream_finish st) = clipCount st"
  "fileReceived (on_stream_finish st) = fileReceived st"
  "files (on_stream_finish st) = files st"
  "posted (on_stream_finish st) = posted st"
  "res (on_stream_finish st) = res st"
  "suspended (on_stream_finish st) = suspended st"
  "exited (on_stream_finish st) = exited st"
  by (simp_all add: on_stream_finish_def)

lemma on_field_simps:
  "tempFilePath (on_field n v st) = tempFilePath st"
  "fileStream (on_field n v st) = fileStream st"
  "fileName (on_field n v st) = fileName st"
  "clipSize (on_field n v st) = (if n = js ''clip_size'' then v else clipSize st)"
  "clipDuration (on_field n v st) = (if n = js ''clip_duration'' then v else clipDuration st)"
  "clipCount (on_field n v st) = (if n = js ''clip_count'' then parseInt_or_1 v else clipCount st)"
  "fileReceived (on_field n v st) = fileReceived st"
  "files (on_field n v st) = files st"
  "posted (on_field n v st) = posted st"
  "res (on_field n v st) = res st"
  "suspended (on_field n v st) = suspended st"
  "exited (on_field n v st) = exited st"
  by (simp_all add: on_field_def Let_def)

lemma on_file_simps:
  "tempFilePath (on_file d f u st) = Some (temp_path d u f)"
  "fileStream (on_file d f u st) = Some Writing"
  "fileName (on_file d f u st) = f"
  "clipSize (on_file d f u st) = clipSize st"
  "clipDuration (on_file d f u st) = clipDuration st"
  "clipCount (on_file d f u st) = clipCount st"
  "fileReceived (on_file d f u st) = True"
  "files (on_file d f u st) = insert (temp_path d u f) (files st)"
  "posted (on_file d f u st) = posted st"
  "res (on_file d f u st) = res st"
  "suspended (on_file d f u st) = suspended st"
  "exited (on_file d f u st) = exited st"
  by (simp_all add: on_file_def Let_def)

lemma on_limit_simps:
  "tempFilePath (on_limit st) = tempFilePath st"
  "fileStream (on_limit st) = (case fileStream st of None \<Rightarrow> None | Some w \<Rightarrow> Some Destroyed)"
  "fileName (on_limit st) = fileName st"
  "clipSize (on_limit st) = clipSize st"
  "clipDuration (on_limit st) = clipDuration st"
  "clipCount (on_limit st) = clipCount st"
  "fileReceived (on_limit st) = fileReceived st"
  "posted (on_limit st) = posted st"
  "res (on_limit st) = res st"
  "suspended (on_limit st) = suspended st"
  "exited (on_limit st) = exited st"
  by (simp_all add: on_limit_def unlink_temp_simps split: option.splits)

lemma files_on_limit:
  "files (on_limit st)
   = (case tempFilePath st of None \<Rightarrow> files st
      | Some p \<Rightarrow> if p = [] then files st else files st - {p})"
  by (simp add: on_limit_def files_unlink_temp split: option.splits)

lemma forward_vars:
  "tempFilePath (forward rt u p st) = tempFilePath st"
  "fileStream (forward rt u p st) = fileStream st"
  "fileName (forward rt u p st) = fileName st"
  "clipSize (forward rt u p st) = clipSize st"
  "clipDuration (forward rt u p st) = clipDuration st"
  "clipCount (forward rt u p st) = clipCount st"
  "fileReceived (forward rt u p st) = fileReceived st"
  "exited (forward rt u p st) = exited st"
  "suspended (forward rt u p st) = suspended st"
  by (simp_all add: forward_def respond_simps unlink_temp_simps Let_def
      split: fetch_result.splits)

lemma posted_forward:
  "posted (forward rt u p st)
   = posted st @ [\<lparr> req_url = u, req_form = webhook_form rt st p,
                    req_body = js ''[object FormData]'' \<rparr>]"
  by (simp add: forward_def respond_simps unlink_temp_simps Let_def form_toString_def
      webhook_form_def split: fetch_result.splits)

lemma res_forward: "res (forward rt u p st) \<noteq> None"
  by (simp add: forward_def respond_simps Let_def split: fetch_result.splits)

lemma files_forward:
  "files (forward rt u p st)
   = (case tempFilePath st of None \<Rightarrow> files st
      | Some q \<Rightarrow> if q = [] then files st else files st - {q})"
  by (simp add: forward_def respond_simps files_unlink_temp unlink_temp_simps Let_def
      split: fetch_result.splits option.splits)

lemma on_finish_vars:
  "tempFilePath (on_finish rt u f st) = tempFilePath st"
  "fileName (on_finish rt u f st) = fileName st"
  "clipSize (on_finish rt u f st) = clipSize st"
  "clipDuration (on_finish rt u f st) = clipDuration st"
  "clipCount (on_finish rt u f st) = clipCount st"
  "fileReceived (on_finish rt u f st) = fileReceived st"
  "exited (on_finish rt u f st) = exited st"
  by (simp_all add: on_finish_def respond_simps unlink_temp_simps forward_vars
      split: option.splits write_stream.splits)

lemma on_error_vars:
  "tempFilePath (on_error st) = tempFilePath st"
  "fileStream (on_error st) = fileStream st"
  "fileName (on_error st) = fileName st"
  "clipSize (on_error st) = clipSize st"
  "clipDuration (on_error st) = clipDuration st"
  "clipCount (on_error st) = clipCount st"
  "fileReceived (on_error st) = fileReceived st"
  "posted (on_error st) = posted st"
  "exited (on_error st) = exited st"
  by (simp_all add: on_error_def respond_simps unlink_temp_simps)

lemma initial_upload_simps:
  "tempFilePath (initial_upload fs) = None"
  "fileStream (initial_upload fs) = None"
  "fileName (initial_upload fs) = []"
  "clipSize (initial_upload fs) = []"
  "clipDuration (initial_upload fs) = []"
  "clipCount (initial_upload fs) = Num 1"
  "fileReceived (initial_upload fs) = False"
  "files (initial_upload fs) = fs"
  "posted (initial_upload fs) = []"
  "res (initial_upload fs) = None"
  "suspended (initial_upload fs) = False"
  "exited (initial_upload fs) = False"
  by (simp_all add: initial_upload_def)

lemma received_simps:
  "received [] = []"
  "received (Field n v # evs) = Field n v # received evs"
  "received (File n f u # evs) = File n f u # received evs"
  "received (FileEnd # evs) = FileEnd # received evs"
  "received (StreamFinish # evs) = StreamFinish # received evs"
  "received (Limit # evs) = []"
  "received (Finish # evs) = []"
  "received (Error # evs) = []"
  by (simp_all add: received_def is_terminal_def)

lemma received_idem: "received (received evs) = received evs"
  by (simp add: received_def)

lemma received_not_terminal: "\<forall>e \<in> set (received evs). \<not> is_terminal e"
  unfolding received_def by (auto dest: set_takeWhileD)

lemma received_id: "\<forall>e \<in> set pre. \<not> is_terminal e \<Longrightarrow> received (pre @ Limit # post) = pre"
  by (simp add: received_def is_terminal_def takeWhile_tail)

lemma clipSize_handle_events:
  "clipSize (handle_events rt u evs st)
   = (case last_field (js ''clip_size'') (received evs) of None \<Rightarrow> clipSize st | Some v \<Rightarrow> v)"
  by (induction rt u evs st rule: handle_events.induct)
     (simp_all add: received_simps on_field_simps on_file_simps on_limit_simps on_finish_vars
        on_error_vars end_part_simps on_stream_finish_simps split: option.splits)

lemma clipDuration_handle_events:
  "clipDuration (handle_events rt u evs st)
   = (case last_field (js ''clip_duration'') (received evs) of
        None \<Rightarrow> clipDuration st | Some v \<Rightarrow> v)"
  by (induction rt u evs st rule: handle_events.induct)
     (simp_all add: received_simps on_field_simps on_file_simps on_limit_simps on_finish_vars
        on_error_vars end_part_simps on_stream_finish_simps split: option.splits)

lemma clipCount_handle_events:
  "clipCount (handle_events rt u evs st)
   = (case last_field (js ''clip_count'') (received evs) of
        None \<Rightarrow> clipCount st | Some v \<Rightarrow> parseInt_or_1 v)"
  by (induction rt u evs st rule: handle_events.induct)
     (simp_all add: received_simps on_field_simps on_file_simps on_limit_simps on_finish_vars
        on_error_vars end_part_simps on_stream_finish_simps split: option.splits)

lemma file_handle_events:
  "(fileName (handle_events rt u evs st), tempFilePath (handle_events rt u evs st))
   = (case last_file (received evs) of
        None \<Rightarrow> (fileName st, tempFilePath st)
      | Some (filename, uniqueId) \<Rightarrow> (filename, Some (temp_path (tmpdir rt) uniqueId filename)))"
  by (induction rt u evs st rule: handle_events.induct)
     (simp_all add: received_simps on_field_simps on_file_simps on_limit_simps on_finish_vars
        on_error_vars end_part_simps on_stream_finish_simps split: option.splits)

lemma upload_video_runs:
  "url \<noteq> [] \<Longrightarrow>
   upload_video (Some url) None rt fs evs = handle_events rt url evs (initial_upload fs)"
  by (simp add: upload_video_def)

lemma handle_events_append:
  "\<forall>e \<in> set pre. \<not> is_terminal e \<Longrightarrow>
   handle_events rt u (pre @ rest) st = handle_events rt u rest (handle_events rt u pre st)"
  by (induction rt u pre st rule: handle_events.induct) (simp_all add: is_terminal_def)

lemma field_names_distinct:
  "js ''clip_size'' \<noteq> js ''clip_duration''"
  "js ''clip_size'' \<noteq> js ''clip_count''"
  "js ''clip_duration'' \<noteq> js ''clip_count''"
  "js ''clip_duration'' \<noteq> js ''clip_size''"
  "js ''clip_count'' \<noteq> js ''clip_size''"
  "js ''clip_count'' \<noteq> js ''clip_duration''"
  by (simp_all add: js_def)

lemma js_nonempty:
  "js ''1080x1920'' \<noteq> []" "js ''30'' \<noteq> []" "js ''ok'' \<noteq> []" "hook \<noteq> []"
  by (simp_all add: js_def hook_def)

lemma temp_path_nonempty: "temp_path d u f \<noteq> []"
  by (simp add: temp_path_def js_def)

lemma sample_runtime_simps:
  "tmpdir sample_runtime = js ''/tmp''"
  "fetch sample_runtime url text = FetchResponse 200 (js ''ok'')"
  "large_toString sample_runtime 9007199254740992 = js ''9007199254740992''"
  by (simp_all add: sample_runtime_def)

section \<open>Upload relay: numbers\<close>

lemma to_double_small: "n < 2 ^ 53 \<Longrightarrow> to_double n = Some n"
  by (simp add: to_double_def)

lemma parseInt_examples:
  "parseInt (js ''abc'') = NaN"
  "parseInt (js ''2'') = Num 2"
  "parseInt (js ''-3'') = Num (- 3)"
  "parseInt (js ''0'') = Num 0"
  "parseInt (js ''1'') = Num 1"
  by (simp_all add: parseInt_def js_def is_space_def digit_value_def digits_value_def Let_def
      to_double_def)

lemma parseInt_or_1_examples:
  "parseInt_or_1 (js ''abc'') = Num 1"
  "parseInt_or_1 (js ''2'') = Num 2"
  "parseInt_or_1 (js ''-3'') = Num (- 3)"
  "parseInt_or_1 (js ''0'') = Num 1"
  "parseInt_or_1 (js ''1'') = Num 1"
  by (simp_all add: parseInt_or_1_def parseInt_examples)

lemma number_toString_examples:
  "number_toString l (Num 2) = js ''2''"
  "number_toString l (Num (- 3)) = js ''-3''"
  "number_toString l (Num 1) = js ''1''"
  by (simp_all add: number_toString_def nat_digits.simps js_def)

lemma bit_length_example: "bit_length 9007199254740993 = 54"
  by (simp add: bit_length.simps)

lemma to_double_example: "to_double 9007199254740993 = Some 9007199254740992"
  by (simp add: to_double_def bit_length_example Let_def)

text \<open>Beyond \<open>2^53\<close> the number parsed is not the integer written: \<open>2^53 + 1\<close> is read as \<open>2^53\<close>.\<close>

lemma parseInt_rounds: "parseInt (js ''9007199254740993'') = Num 9007199254740992"
  by (simp add: parseInt_def js_def is_space_def digit_value_def digits_value_def Let_def
      to_double_example)

subsection \<open>A count written in decimal, below \<open>2^53\<close>, is parsed exactly\<close>

lemma unat_digit_char: "d < 10 \<Longrightarrow> unat (of_nat (48 + d) :: jschar) = 48 + d"
  by (rule unat_of_nat16) simp

lemma digit_value_digit_char: "d < 10 \<Longrightarrow> digit_value (of_nat (48 + d)) = Some d"
  using unat_digit_char [of d] by (simp add: digit_value_def Let_def)

lemma is_decimal_digit_char: "d < 10 \<Longrightarrow> is_decimal (of_nat (48 + d))"
  using unat_digit_char [of d] by (simp add: is_decimal_def)

lemma nat_digits_decimal: "\<forall>c \<in> set (nat_digits n). is_decimal c"
proof (induction n rule: nat_digits.induct)
  case (1 n)
  show ?case
  proof (cases "n < 10")
    case True
    then show ?thesis
      using is_decimal_digit_char [of n] by (simp add: nat_digits.simps [of n] del: of_nat_add)
  next
    case False
    have "n mod 10 < 10" by simp
    then show ?thesis
      using False 1 is_decimal_digit_char [of "n mod 10"]
      by (simp add: nat_digits.simps [of n] del: of_nat_add)
  qed
qed

lemma nat_digits_nonempty: "nat_digits n \<noteq> []"
  by (simp add: nat_digits.simps [of n])

lemma digits_prefix_append:
  "\<forall>c \<in> set xs. is_decimal c \<Longrightarrow>
   digits_prefix 10 (xs @ ys) = digits_prefix 10 xs @ digits_prefix 10 ys"
proof (induction xs)
  case Nil
  then show ?case by simp
next
  case (Cons c xs)
  then have "48 \<le> unat c" "unat c \<le> 57" by (simp_all add: is_decimal_def)
  then have "digit_value c = Some (unat c - 48)" "unat c - 48 < 10"
    by (simp_all add: digit_value_def Let_def)
  then show ?case using Cons by simp
qed

lemma digits_prefix_digit_char: "d < 10 \<Longrightarrow> digits_prefix 10 [of_nat (48 + d)] = [d]"
  using digit_value_digit_char [of d] by (simp del: of_nat_add)

lemma digits_value_snoc: "digits_value r (ds @ [d]) = digits_value r ds * r + d"
  by (simp add: digits_value_def)

lemma digits_of_nat_digits:
  "digits_prefix 10 (nat_digits n) \<noteq> [] \<and> digits_value 10 (digits_prefix 10 (nat_digits n)) = n"
proof (induction n rule: nat_digits.induct)
  case (1 n)
  show ?case
  proof (cases "n < 10")
    case True
    then show ?thesis
      by (simp add: nat_digits.simps [of n] digit_value_digit_char digits_value_def
          del: of_nat_add)
  next
    case False
    have m: "n mod 10 < 10" by simp
    have l: "digits_prefix 10 [of_nat (48 + n mod 10)] = [n mod 10]"
      using m by (rule digits_prefix_digit_char)
    have "digits_prefix 10 (nat_digits n)
          = digits_prefix 10 (nat_digits (n div 10)) @ [n mod 10]"
      using False l nat_digits_decimal [of "n div 10"]
      by (simp add: nat_digits.simps [of n] digits_prefix_append del: of_nat_add)
    then show ?thesis
      using 1 False by (simp add: digits_value_snoc)
  qed
qed

lemma parseInt_nat_digits:
  assumes "n < 2 ^ 53"
  shows "parseInt (nat_digits n) = Num (int n)"
proof -
  obtain c cs where s: "nat_digits n = c # cs"
    using nat_digits_nonempty [of n] by (cases "nat_digits n") auto
  have dec: "\<forall>x \<in> set (c # cs). is_decimal x"
    using nat_digits_decimal [of n] s by simp
  then have c: "48 \<le> unat c" "unat c \<le> 57" by (simp_all add: is_decimal_def)
  have sp: "\<not> is_space c" using c by (auto simp: is_space_def Let_def)
  have sg: "c \<noteq> 45" "c \<noteq> 43" using c by auto
  have nohex: "\<not> (length (c # cs) \<ge> 2 \<and> (c # cs) ! 0 = 48
                 \<and> ((c # cs) ! 1 = 120 \<or> (c # cs) ! 1 = 88))"
  proof (cases cs)
    case Nil
    then show ?thesis by simp
  next
    case (Cons x xs)
    then have "is_decimal x" using dec by simp
    then have "x \<noteq> 120" "x \<noteq> 88" by (auto simp: is_decimal_def)
    then show ?thesis using Cons by simp
  qed
  have dw: "dropWhile is_space (c # cs) = c # cs" using sp by simp
  have e: "(c # cs \<noteq> []) = True" "hd (c # cs) = c" "(c = 45) = False" "(c = 43) = False"
    "(2 \<le> length (c # cs) \<and> (c # cs) ! 0 = 48
       \<and> ((c # cs) ! 1 = 120 \<or> (c # cs) ! 1 = 88)) = False"
    using sg nohex by simp_all
  have "parseInt (c # cs)
        = (if digits_prefix 10 (c # cs) = [] then NaN
           else (case to_double (digits_value 10 (digits_prefix 10 (c # cs))) of
                   None \<Rightarrow> PosInfinity
                 | Some v \<Rightarrow> Num (int v)))"
    unfolding parseInt_def Let_def dw
    by (simp only: e simp_thms if_False if_True mult_1)
  then show ?thesis
    using digits_of_nat_digits [of n] s to_double_small [OF assms] by simp
qed

lemma count_round_trip:
  assumes "0 < n" and "n < 2 ^ 53"
  shows "parseInt_or_1 (nat_digits n) = Num (int n)"
    and "number_toString l (parseInt_or_1 (nat_digits n)) = nat_digits n"
  using assms by (simp_all add: parseInt_or_1_def parseInt_nat_digits number_toString_def)

section \<open>Upload relay: what is posted\<close>

lemma webhook_form_vars:
  "webhook_form rt (end_part st) p = webhook_form rt st p"
  "webhook_form rt (st \<lparr> fileStream := w \<rparr>) p = webhook_form rt st p"
  by (simp_all add: webhook_form_def end_part_simps)

lemma clip_count_key:
  "map_of (form_fields (webhook_form rt st p)) (js ''clip_count'')
   = Some (number_toString (large_toString rt) (clipCount st))"
  by (simp add: webhook_form_def js_def)

lemma posted_on_finish:
  assumes "posted st = []"
  shows "posted (on_finish rt u f st) = []
         \<or> (\<exists>p. tempFilePath st = Some p \<and> clipSize st \<noteq> [] \<and> clipDuration st \<noteq> []
                 \<and> fileStream st \<noteq> Some Destroyed \<and> fileStream st \<noteq> Some Finished
                 \<and> posted (on_finish rt u f st)
                     = [\<lparr> req_url = u, req_form = webhook_form rt st p,
                          req_body = js ''[object FormData]'' \<rparr>])"
  using assms
  by (auto simp: on_finish_def respond_simps unlink_temp_simps posted_forward webhook_form_vars
      split: option.splits write_stream.splits)

lemma posted_handle_events:
  assumes "posted st = []"
  shows "posted (handle_events rt u evs st) = []
         \<or> (\<exists>p. tempFilePath (handle_events rt u (received evs) st) = Some p
                 \<and> clipSize (handle_events rt u (received evs) st) \<noteq> []
                 \<and> clipDuration (handle_events rt u (received evs) st) \<noteq> []
                 \<and> posted (handle_events rt u evs st)
                     = [\<lparr> req_url = u,
                          req_form = webhook_form rt (handle_events rt u (received evs) st) p,
                          req_body = js ''[object FormData]'' \<rparr>])"
  using assms
proof (induction rt u evs st rule: handle_events.induct)
  case (7 rt url evs st)
  then show ?case
    using posted_on_finish [of "end_part st" rt url "StreamFinish \<in> set evs"]
    by (auto simp: received_simps end_part_simps webhook_form_vars)
qed (simp_all add: received_simps on_field_simps on_file_simps on_limit_simps on_error_vars
      end_part_simps on_stream_finish_simps)

lemma upload_video_posted:
  assumes "posted (upload_video w b rt fs evs) \<noteq> []"
  shows "\<exists>url. w = Some url \<and> url \<noteq> [] \<and> b = None
              \<and> upload_video w b rt fs evs = handle_events rt url evs (initial_upload fs)"
  using assms
  by (auto simp: upload_video_def respond_simps unlink_temp_simps initial_upload_simps
      split: option.splits if_splits)

text \<open>
  Whenever the handler calls \<open>fetch\<close>, it calls it once, with the user's webhook URL and
  a form that holds the fields \<open>video_type = "mp4"\<close>, \<open>file_name\<close> (the file name of the
  last file part), \<open>clip_size\<close> and \<open>clip_duration\<close> (the last values the client supplied),
  \<open>clip_count\<close> (the text of the parsed and defaulted count), in this order, and one file
  part named \<open>file\<close>, to be read from the temp file, with the client's file name and the
  content type \<open>video/mp4\<close>. The body that goes out is not this form, but the text
  \<open>[object FormData]\<close>.
\<close>

lemma form_built:
  assumes "posted (upload_video w b rt fs evs) \<noteq> []"
  shows "\<exists>url filename uniqueId size duration.
           w = Some url
           \<and> last_file (received evs) = Some (filename, uniqueId)
           \<and> last_field (js ''clip_size'') (received evs) = Some size
           \<and> last_field (js ''clip_duration'') (received evs) = Some duration
           \<and> posted (upload_video w b rt fs evs)
               = [\<lparr> req_url = url,
                    req_form =
                      \<lparr> form_fields =
                          [(js ''video_type'', js ''mp4''),
                           (js ''file_name'', filename),
                           (js ''clip_size'', size),
                           (js ''clip_duration'', duration),
                           (js ''clip_count'',
                            number_toString (large_toString rt)
                              (case last_field (js ''clip_count'') (received evs) of
                                 None \<Rightarrow> Num 1
                               | Some v \<Rightarrow> parseInt_or_1 v))],
                        form_file =
                          \<lparr> part_name = js ''file'',
                            part_path = temp_path (tmpdir rt) uniqueId filename,
                            part_filename = filename,
                            part_contentType = js ''video/mp4'' \<rparr> \<rparr>,
                    req_body = js ''[object FormData]'' \<rparr>]"
proof -
  obtain url where url: "w = Some url"
    and run: "upload_video w b rt fs evs = handle_events rt url evs (initial_upload fs)"
    using upload_video_posted [OF assms] by blast
  define S where "S = handle_events rt url (received evs) (initial_upload fs)"
  have pi: "posted (initial_upload fs) = []" by (simp add: initial_upload_simps)
  obtain p where p: "tempFilePath S = Some p" "clipSize S \<noteq> []" "clipDuration S \<noteq> []"
    and po: "posted (handle_events rt url evs (initial_upload fs))
             = [\<lparr> req_url = url, req_form = webhook_form rt S p,
                  req_body = js ''[object FormData]'' \<rparr>]"
    using posted_handle_events [OF pi, of rt url evs] assms run
    unfolding S_def by auto
  have cs: "clipSize S = (case last_field (js ''clip_size'') (received evs) of
                            None \<Rightarrow> [] | Some v \<Rightarrow> v)"
    unfolding S_def
    by (simp add: clipSize_handle_events received_idem initial_upload_simps split: option.splits)
  have cd: "clipDuration S = (case last_field (js ''clip_duration'') (received evs) of
                                None \<Rightarrow> [] | Some v \<Rightarrow> v)"
    unfolding S_def
    by (simp add: clipDuration_handle_events received_idem initial_upload_simps
        split: option.splits)
  have cc: "clipCount S = (case last_field (js ''clip_count'') (received evs) of
                             None \<Rightarrow> Num 1 | Some v \<Rightarrow> parseInt_or_1 v)"
    unfolding S_def
    by (simp add: clipCount_handle_events received_idem initial_upload_simps split: option.splits)
  have fl: "(fileName S, tempFilePath S)
            = (case last_file (received evs) of
                 None \<Rightarrow> ([], None)
               | Some (filename, uniqueId) \<Rightarrow>
                   (filename, Some (temp_path (tmpdir rt) uniqueId filename)))"
    unfolding S_def
    using file_handle_events [of rt url "received evs" "initial_upload fs"]
    by (simp add: received_idem initial_upload_simps split: option.splits)
  obtain size where size: "last_field (js ''clip_size'') (received evs) = Some size"
    "clipSize S = size"
    using cs p(2) by (cases "last_field (js ''clip_size'') (received evs)") simp_all
  obtain duration where duration: "last_field (js ''clip_duration'') (received evs) = Some duration"
    "clipDuration S = duration"
    using cd p(3) by (cases "last_field (js ''clip_duration'') (received evs)") simp_all
  obtain filename uniqueId where lf: "last_file (received evs) = Some (filename, uniqueId)"
    "fileName S = filename" "p = temp_path (tmpdir rt) uniqueId filename"
    using fl p(1) by (cases "last_file (received evs)") auto
  show ?thesis
    using url run po size duration lf cc by (simp add: webhook_form_def)
qed

lemma upload_example:
  "upload_video (Some hook) None sample_runtime {} (upload_events count)
   = \<lparr> tempFilePath = Some (temp_path (js ''/tmp'') (js ''17-x1'') (js ''a.mp4'')),
       fileStream = Some Finished, fileName = js ''a.mp4'', clipSize = js ''1080x1920'',
       clipDuration = js ''30'', clipCount = parseInt_or_1 count, fileReceived = True,
       files = {},
       posted =
         [\<lparr> req_url = hook,
            req_form =
              \<lparr> form_fields =
                  [(js ''video_type'', js ''mp4''),
                   (js ''file_name'', js ''a.mp4''),
                   (js ''clip_size'', js ''1080x1920''),
                   (js ''clip_duration'', js ''30''),
                   (js ''clip_count'',
                    number_toString (large_toString sample_runtime) (parseInt_or_1 count))],
                form_file =
                  \<lparr> part_name = js ''file'',
                    part_path = temp_path (js ''/tmp'') (js ''17-x1'') (js ''a.mp4''),
                    part_filename = js ''a.mp4'',
                    part_contentType = js ''video/mp4'' \<rparr> \<rparr>,
            req_body = js ''[object FormData]'' \<rparr>],
       res = Some \<lparr> status = 200, body = SuccessBody (js ''ok'') \<rparr>,
       suspended = False, exited = False \<rparr>"
  by (simp add: upload_video_def js_nonempty upload_events_def initial_upload_def on_file_def
      on_field_def field_names_distinct Let_def on_finish_def temp_path_nonempty webhook_form_def
      sample_runtime_simps unlink_temp_def response_ok_def respond_def end_part_def forward_def
      form_toString_def)

subsection \<open>What reaches the webhook\<close>

text \<open>
  C7 asks that the fields arriving at the destination be \<open>video_type\<close>, \<open>file_name\<close>,
  \<open>clip_size\<close>, \<open>clip_duration\<close> and \<open>clip_count\<close>, with one file part of content type
  \<open>video/mp4\<close>. The handler builds that form (lemma \<open>form_built\<close>), but it is an object of
  the npm package \<open>form-data\<close>, and the handler gives it as body to the global \<open>fetch\<close>,
  which does not know the class and sends the object's string conversion. At this
  upload (a file part \<open>a.mp4\<close>, then \<open>clip_size\<close>, \<open>clip_duration\<close> and \<open>clip_count = 2\<close>, the
  end of the body, and the write stream finishing) one request goes to the webhook URL,
  its body is the text \<open>[object FormData]\<close>, and the client is answered 200 with the
  webhook's answer: no field and no file part arrive at the destination.
\<close>

theorem forward_sends_no_field:
  "map req_url (posted (upload_video (Some hook) None sample_runtime {} (upload_events (js ''2''))))
     = [hook]
   \<and> map req_body
         (posted (upload_video (Some hook) None sample_runtime {} (upload_events (js ''2''))))
       = [js ''[object FormData]'']
   \<and> map (form_fields \<circ> req_form)
         (posted (upload_video (Some hook) None sample_runtime {} (upload_events (js ''2''))))
       = [[(js ''video_type'', js ''mp4''),
           (js ''file_name'', js ''a.mp4''),
           (js ''clip_size'', js ''1080x1920''),
           (js ''clip_duration'', js ''30''),
           (js ''clip_count'', js ''2'')]]
   \<and> res (upload_video (Some hook) None sample_runtime {} (upload_events (js ''2'')))
       = Some \<lparr> status = 200, body = SuccessBody (js ''ok'') \<rparr>"
  by (simp add: upload_example parseInt_or_1_examples number_toString_examples)

text \<open>Every request the handler makes has this text as its body.\<close>

lemma every_body_is_text:
  "r \<in> set (posted (upload_video w b rt fs evs)) \<Longrightarrow> req_body r = js ''[object FormData]''"
proof -
  assume r: "r \<in> set (posted (upload_video w b rt fs evs))"
  then have "posted (upload_video w b rt fs evs) \<noteq> []" by auto
  from form_built [OF this] r show ?thesis by auto
qed

subsection \<open>The clip count\<close>

text \<open>
  C6, as the code has it. The count the handler uses is \<open>parseInt(value) || 1\<close> of the last
  \<open>clip_count\<close> field, a double: 1 when the field is absent, when it does not parse
  (\<open>"abc"\<close>) and when it parses to zero, and the parsed number otherwise, infinite when the
  digits are too many. It is never zero and never \<open>NaN\<close>. A count written in decimal,
  positive and below \<open>2^53\<close>, is parsed to itself. The text of the count is the
  \<open>clip_count\<close> field of the form the handler builds and gives to \<open>fetch\<close>. Nothing makes
  the count at least 1: a negative value is kept.
\<close>

theorem clip_count_defaulting:
  assumes "url \<noteq> []"
  shows "clipCount (upload_video (Some url) None rt fs evs)
           = (case last_field (js ''clip_count'') (received evs) of
                None \<Rightarrow> Num 1
              | Some v \<Rightarrow>
                  (case parseInt v of
                     NaN \<Rightarrow> Num 1
                   | Num n \<Rightarrow> if n = 0 then Num 1 else Num n
                   | PosInfinity \<Rightarrow> PosInfinity
                   | NegInfinity \<Rightarrow> NegInfinity))
         \<and> clipCount (upload_video (Some url) None rt fs evs) \<noteq> Num 0
         \<and> clipCount (upload_video (Some url) None rt fs evs) \<noteq> NaN
         \<and> parseInt (js ''abc'') = NaN
         \<and> (\<forall>n. 0 < n \<and> n < 2 ^ 53 \<longrightarrow> parseInt (nat_digits n) = Num (int n))
         \<and> (\<forall>r \<in> set (posted (upload_video (Some url) None rt fs evs)).
               map_of (form_fields (req_form r)) (js ''clip_count'')
               = Some (number_toString (large_toString rt)
                         (clipCount (upload_video (Some url) None rt fs evs))))"
proof -
  let ?final = "handle_events rt url evs (initial_upload fs)"
  let ?S = "handle_events rt url (received evs) (initial_upload fs)"
  have c: "clipCount ?final
           = (case last_field (js ''clip_count'') (received evs) of
                None \<Rightarrow> Num 1
              | Some v \<Rightarrow>
                  (case parseInt v of
                     NaN \<Rightarrow> Num 1
                   | Num n \<Rightarrow> if n = 0 then Num 1 else Num n
                   | PosInfinity \<Rightarrow> PosInfinity
                   | NegInfinity \<Rightarrow> NegInfinity))"
    by (simp add: clipCount_handle_events initial_upload_simps parseInt_or_1_def
        split: option.splits number.splits)
  have z: "clipCount ?final \<noteq> Num 0" "clipCount ?final \<noteq> NaN"
    unfolding c by (simp_all split: option.splits number.splits)
  have same: "clipCount ?S = clipCount ?final"
    by (simp add: clipCount_handle_events received_idem)
  have pi: "posted (initial_upload fs) = []" by (simp add: initial_upload_simps)
  have f: "\<forall>r \<in> set (posted ?final).
             map_of (form_fields (req_form r)) (js ''clip_count'')
             = Some (number_toString (large_toString rt) (clipCount ?final))"
    using posted_handle_events [OF pi, of rt url evs] clip_count_key [of rt ?S] same
    by auto
  have e: "\<forall>n. 0 < n \<and> n < 2 ^ 53 \<longrightarrow> parseInt (nat_digits n) = Num (int n)"
    using parseInt_nat_digits by blast
  show ?thesis
    using c z f e parseInt_examples(1) by (simp add: upload_video_runs [OF assms])
qed

theorem clip_count_defaulting_witness:
  "hook \<noteq> []
   \<and> last_field (js ''clip_count'') (received (upload_events (js ''abc''))) = Some (js ''abc'')
   \<and> clipCount (upload_video (Some hook) None sample_runtime {} (upload_events (js ''abc'')))
       = Num 1
   \<and> parseInt (nat_digits 2) = Num 2
   \<and> map (\<lambda>r. map_of (form_fields (req_form r)) (js ''clip_count''))
         (posted (upload_video (Some hook) None sample_runtime {} (upload_events (js ''abc''))))
       = [Some (js ''1'')]"
proof -
  have h: "hook \<noteq> []" by (rule js_nonempty)
  have l: "last_field (js ''clip_count'') (received (upload_events (js ''abc'')))
           = Some (js ''abc'')"
    by (simp add: upload_events_def received_simps field_names_distinct)
  have p: "posted (upload_video (Some hook) None sample_runtime {} (upload_events (js ''abc'')))
           = [\<lparr> req_url = hook,
                req_form =
                  \<lparr> form_fields =
                      [(js ''video_type'', js ''mp4''),
                       (js ''file_name'', js ''a.mp4''),
                       (js ''clip_size'', js ''1080x1920''),
                       (js ''clip_duration'', js ''30''),
                       (js ''clip_count'', js ''1'')],
                    form_file =
                      \<lparr> part_name = js ''file'',
                        part_path = temp_path (js ''/tmp'') (js ''17-x1'') (js ''a.mp4''),
                        part_filename = js ''a.mp4'',
                        part_contentType = js ''video/mp4'' \<rparr> \<rparr>,
                req_body = js ''[object FormData]'' \<rparr>]"
    by (simp add: upload_example parseInt_or_1_examples number_toString_examples)
  have t: "(0::nat) < 2 \<and> (2::nat) < 2 ^ 53" by simp
  show ?thesis
    using clip_count_defaulting [OF h, of sample_runtime "{}" "upload_events (js ''abc'')"] h l t
    unfolding p
    by (simp add: parseInt_examples number_toString_examples)
qed

text \<open>
  The claim as stated, that the count used is at least 1, fails for the field value
  \<open>"-3"\<close>: the handler keeps \<open>-3\<close> and writes \<open>clip_count = "-3"\<close> into the form it builds.
\<close>

theorem clip_count_negative:
  "clipCount (upload_video (Some hook) None sample_runtime {} (upload_events (js ''-3'')))
     = Num (- 3)
   \<and> (- 3 :: int) < 1
   \<and> map (\<lambda>r. map_of (form_fields (req_form r)) (js ''clip_count''))
         (posted (upload_video (Some hook) None sample_runtime {} (upload_events (js ''-3''))))
       = [Some (js ''-3'')]"
proof -
  have k: "js ''clip_count'' \<noteq> js ''video_type''" "js ''clip_count'' \<noteq> js ''file_name''"
    by (simp_all add: js_def)
  show ?thesis
    by (simp add: upload_example parseInt_or_1_examples number_toString_examples
        field_names_distinct k)
qed

text \<open>
  Nor is the count the integer the client wrote, from \<open>2^53\<close>: the field value
  \<open>"9007199254740993"\<close> gives the count \<open>9007199254740992\<close>.
\<close>

lemma clip_count_rounded:
  "clipCount (upload_video (Some hook) None sample_runtime {}
                (upload_events (js ''9007199254740993'')))
     = Num 9007199254740992
   \<and> map (\<lambda>r. map_of (form_fields (req_form r)) (js ''clip_count''))
         (posted (upload_video (Some hook) None sample_runtime {}
                    (upload_events (js ''9007199254740993''))))
       = [Some (js ''9007199254740992'')]"
proof -
  have k: "js ''clip_count'' \<noteq> js ''video_type''" "js ''clip_count'' \<noteq> js ''file_name''"
    by (simp_all add: js_def)
  have c: "parseInt_or_1 (js ''9007199254740993'') = Num 9007199254740992"
    by (simp add: parseInt_or_1_def parseInt_rounds)
  have t: "number_toString (large_toString sample_runtime) (Num 9007199254740992)
           = js ''9007199254740992''"
    by (simp add: number_toString_def sample_runtime_simps)
  show ?thesis
    by (simp add: upload_example c t field_names_distinct k)
qed

section \<open>Upload relay: the size limit\<close>

lemma received_all: "\<forall>e \<in> set pre. \<not> is_terminal e \<Longrightarrow> received pre = pre"
  by (simp add: received_def)

lemma posted_before_terminal:
  "\<forall>e \<in> set pre. \<not> is_terminal e \<Longrightarrow> posted (handle_events rt u pre st) = posted st"
  by (induction rt u pre st rule: handle_events.induct)
     (simp_all add: is_terminal_def on_field_simps on_file_simps end_part_simps
        on_stream_finish_simps)

lemma files_before_terminal:
  "\<forall>e \<in> set pre. \<not> is_terminal e \<Longrightarrow> files st \<subseteq> files (handle_events rt u pre st)"
proof (induction rt u pre st rule: handle_events.induct)
  case (3 rt url name filename uniqueId evs st)
  then have "files (on_file (tmpdir rt) filename uniqueId (end_part st))
             \<subseteq> files (handle_events rt url evs (on_file (tmpdir rt) filename uniqueId (end_part st)))"
    by simp
  then show ?case by (auto simp: on_file_simps end_part_simps)
qed (simp_all add: is_terminal_def on_field_simps end_part_simps on_stream_finish_simps)

lemma last_file_created:
  "\<forall>e \<in> set pre. \<not> is_terminal e \<Longrightarrow> last_file pre = Some (filename, uniqueId) \<Longrightarrow>
   temp_path (tmpdir rt) uniqueId filename \<in> files (handle_events rt u pre st)"
proof (induction rt u pre st rule: handle_events.induct)
  case (3 rt url name f i evs st)
  show ?case
  proof (cases "last_file evs")
    case None
    then have "filename = f" "uniqueId = i" using 3(3) by simp_all
    then have "temp_path (tmpdir rt) uniqueId filename
               \<in> files (on_file (tmpdir rt) f i (end_part st))"
      by (simp add: on_file_simps)
    then show ?thesis
      using files_before_terminal [of evs "on_file (tmpdir rt) f i (end_part st)" rt url] 3(2)
      by auto
  next
    case (Some a)
    then show ?thesis using 3 by simp
  qed
qed (simp_all add: is_terminal_def)

lemma handler_invariant_initial: "handler_invariant (initial_upload fs)"
  by (simp add: handler_invariant_def initial_upload_simps)

lemma handler_invariant_before_terminal:
  "\<forall>e \<in> set pre. \<not> is_terminal e \<Longrightarrow> handler_invariant st \<Longrightarrow>
   handler_invariant (handle_events rt u pre st)"
proof (induction rt u pre st rule: handle_events.induct)
  case (2 rt url name v evs st)
  have "handler_invariant (on_field name v (end_part st))"
    using 2(3) by (auto simp: handler_invariant_def on_field_simps end_part_simps
        split: option.splits)
  then show ?case using 2 by simp
next
  case (3 rt url name filename uniqueId evs st)
  have "handler_invariant (on_file (tmpdir rt) filename uniqueId (end_part st))"
    by (simp add: handler_invariant_def on_file_simps temp_path_nonempty)
  then show ?case using 3 by simp
next
  case (4 rt url evs st)
  have "handler_invariant (end_part st)"
    using 4(3) by (auto simp: handler_invariant_def end_part_simps split: option.splits)
  then show ?case using 4 by simp
next
  case (5 rt url evs st)
  have "handler_invariant (on_stream_finish st)"
    using 5(3) by (auto simp: handler_invariant_def on_stream_finish_simps split: option.splits)
  then show ?case using 5 by simp
qed (simp_all add: is_terminal_def)

text \<open>
  C3. Take an upload with a file part, and let the size limit be reached (\<open>pre\<close> are the
  parts before that, none of them ending the handling; the last file part among them has
  the file name \<open>filename\<close>, and its temp file the unique id \<open>uniqueId\<close>). Before the limit
  the temp file of the part exists. When the limit handler has run, the write stream is
  destroyed and that file does not exist. Whatever the request holds after that (\<open>post\<close>),
  the file does not exist at the end, and nothing is posted to the webhook.
\<close>

theorem size_limit_not_forwarded:
  assumes "url \<noteq> []" and "\<forall>e \<in> set pre. \<not> is_terminal e"
    and "last_file pre = Some (filename, uniqueId)"
  shows "temp_path (tmpdir rt) uniqueId filename
           \<in> files (handle_events rt url pre (initial_upload fs))
         \<and> fileStream (handle_events rt url (pre @ [Limit]) (initial_upload fs)) = Some Destroyed
         \<and> temp_path (tmpdir rt) uniqueId filename
             \<notin> files (handle_events rt url (pre @ [Limit]) (initial_upload fs))
         \<and> temp_path (tmpdir rt) uniqueId filename
             \<notin> files (upload_video (Some url) None rt fs (pre @ Limit # post))
         \<and> posted (upload_video (Some url) None rt fs (pre @ Limit # post)) = []"
proof -
  define S where "S = handle_events rt url pre (initial_upload fs)"
  define p where "p = temp_path (tmpdir rt) uniqueId filename"
  have created: "p \<in> files S"
    unfolding S_def p_def by (rule last_file_created [OF assms(2,3)])
  have inv: "handler_invariant S"
    unfolding S_def by (rule handler_invariant_before_terminal [OF assms(2) handler_invariant_initial])
  have rec: "tempFilePath S = Some p"
    unfolding S_def p_def
    using file_handle_events [of rt url pre "initial_upload fs"] assms(3)
    by (simp add: received_all [OF assms(2)])
  have str: "fileStream S \<noteq> None"
    using inv rec by (simp add: handler_invariant_def)
  have po: "posted S = []"
    unfolding S_def by (simp add: posted_before_terminal [OF assms(2)] initial_upload_simps)
  have at_limit: "handle_events rt url (pre @ [Limit]) (initial_upload fs)
                  = (on_limit S) \<lparr> exited := True \<rparr>"
    unfolding S_def by (simp add: handle_events_append [OF assms(2)])
  have all: "handle_events rt url (pre @ Limit # post) (initial_upload fs)
             = (on_limit S) \<lparr> exited := True \<rparr>"
    unfolding S_def by (simp add: handle_events_append [OF assms(2)])
  have destroyed: "fileStream (on_limit S) = Some Destroyed"
    using str by (auto simp: on_limit_simps split: option.splits)
  have gone: "p \<notin> files (on_limit S)"
    using rec by (simp add: files_on_limit p_def temp_path_nonempty)
  have none: "posted (on_limit S) = []"
    using po by (simp add: on_limit_simps)
  show ?thesis
    using created destroyed gone none
    unfolding upload_video_runs [OF assms(1)] at_limit all S_def [symmetric] p_def [symmetric]
    by simp
qed

lemma oversize_example:
  "upload_video (Some hook) None sample_runtime {} oversize_events
   = \<lparr> tempFilePath = Some (temp_path (js ''/tmp'') (js ''17-x1'') (js ''big.mp4'')),
       fileStream = Some Destroyed, fileName = js ''big.mp4'', clipSize = [],
       clipDuration = [], clipCount = Num 1, fileReceived = True,
       files = {}, posted = [], res = None, suspended = False, exited = True \<rparr>"
  by (simp add: upload_video_def js_nonempty oversize_events_def initial_upload_def
      on_file_def on_limit_def Let_def temp_path_nonempty unlink_temp_def end_part_def
      sample_runtime_simps)

theorem size_limit_not_forwarded_witness:
  "hook \<noteq> []
   \<and> \<not> is_terminal (File (js ''file'') (js ''big.mp4'') (js ''17-x1''))
   \<and> last_file [File (js ''file'') (js ''big.mp4'') (js ''17-x1'')]
       = Some (js ''big.mp4'', js ''17-x1'')
   \<and> temp_path (js ''/tmp'') (js ''17-x1'') (js ''big.mp4'')
       \<in> files (handle_events sample_runtime hook
                  [File (js ''file'') (js ''big.mp4'') (js ''17-x1'')] (initial_upload {}))
   \<and> temp_path (js ''/tmp'') (js ''17-x1'') (js ''big.mp4'')
       \<notin> files (upload_video (Some hook) None sample_runtime {} oversize_events)
   \<and> posted (upload_video (Some hook) None sample_runtime {} oversize_events) = []"
proof -
  have a: "\<forall>e \<in> set [File (js ''file'') (js ''big.mp4'') (js ''17-x1'')]. \<not> is_terminal e"
    by (simp add: is_terminal_def)
  have l: "last_file [File (js ''file'') (js ''big.mp4'') (js ''17-x1'')]
           = Some (js ''big.mp4'', js ''17-x1'')"
    by simp
  have h: "hook \<noteq> []" by (rule js_nonempty)
  show ?thesis
    using size_limit_not_forwarded [OF h a l, of sample_runtime "{}"
        "[Field (js ''clip_size'') (js ''1080x1920''), Field (js ''clip_duration'') (js ''30''),
          Field (js ''clip_count'') (js ''1''), Finish]"] h a l
    by (simp add: oversize_events_def sample_runtime_simps)
qed

section \<open>Upload relay: requests that are never answered\<close>

text \<open>
  C2 asks that every invocation, whatever its outcome, ends with the temp file gone and
  with a response sent. The handler breaks the second half at this upload: a file part
  that reaches the size limit. The limit handler destroys the write stream and removes
  the temp file, and sends nothing; the file part is still piped into the destroyed
  stream, the error of that write has no listener, and the process exits. Nothing is
  posted and no response is ever sent.
\<close>

theorem oversize_upload_never_answered:
  "res (upload_video (Some hook) None sample_runtime {} oversize_events) = None
   \<and> exited (upload_video (Some hook) None sample_runtime {} oversize_events)
   \<and> posted (upload_video (Some hook) None sample_runtime {} oversize_events) = []
   \<and> files (upload_video (Some hook) None sample_runtime {} oversize_events) = {}"
  by (simp add: oversize_example)

text \<open>
  Two more uploads are never answered, and these leave the temp file. When the write
  stream has finished before the parser does (a file part first, and the rest of the
  body later), the \<open>finish\<close> handler waits for an event that has passed. When the body is
  cut off inside the file part, the stream of the part fails with no listener, and the
  process exits before the \<open>error\<close> handler has run.
\<close>

lemma early_finish_never_answered:
  "res (upload_video (Some hook) None sample_runtime {} early_finish_events) = None
   \<and> suspended (upload_video (Some hook) None sample_runtime {} early_finish_events)
   \<and> posted (upload_video (Some hook) None sample_runtime {} early_finish_events) = []
   \<and> files (upload_video (Some hook) None sample_runtime {} early_finish_events)
       = {temp_path (js ''/tmp'') (js ''17-x1'') (js ''a.mp4'')}"
  by (simp add: upload_video_def js_nonempty early_finish_events_def initial_upload_def
      on_file_def on_field_def field_names_distinct Let_def on_finish_def temp_path_nonempty
      end_part_def on_stream_finish_def sample_runtime_simps)

lemma truncated_upload_exits:
  "res (upload_video (Some hook) None sample_runtime {} truncated_events) = None
   \<and> exited (upload_video (Some hook) None sample_runtime {} truncated_events)
   \<and> posted (upload_video (Some hook) None sample_runtime {} truncated_events) = []
   \<and> files (upload_video (Some hook) None sample_runtime {} truncated_events)
       = {temp_path (js ''/tmp'') (js ''17-x1'') (js ''a.mp4'')}"
  by (simp add: upload_video_def js_nonempty truncated_events_def initial_upload_def
      on_file_def Let_def end_part_def sample_runtime_simps)

subsection \<open>Requests that are answered\<close>

lemma handler_invariant_step:
  "handler_invariant st \<Longrightarrow> handler_invariant (end_part st)"
  "handler_invariant st \<Longrightarrow> handler_invariant (on_field n v st)"
  "handler_invariant st \<Longrightarrow> handler_invariant (on_stream_finish st)"
  "handler_invariant (on_file d f u st)"
  by (auto simp: handler_invariant_def end_part_simps on_field_simps on_stream_finish_simps
      on_file_simps temp_path_nonempty split: option.splits)

lemma on_finish_answered:
  assumes "handler_invariant st" and "res (on_finish rt u f st) \<noteq> None" and "res st = None"
  shows "temp_file_absent (on_finish rt u f st)"
proof (cases "tempFilePath st")
  case None
  then show ?thesis
    by (simp add: on_finish_def respond_simps temp_file_absent_def)
next
  case (Some p)
  have p: "p \<noteq> []" "fileReceived st"
    using assms(1) Some by (auto simp: handler_invariant_def)
  show ?thesis
    using Some p assms(2,3)
    by (auto simp: on_finish_def respond_simps unlink_temp_simps files_unlink_temp
        temp_file_absent_def forward_vars files_forward
        split: option.splits write_stream.splits)
qed

lemma on_error_answered:
  "handler_invariant st \<Longrightarrow> temp_file_absent (on_error st)"
  by (auto simp: on_error_def respond_simps unlink_temp_simps files_unlink_temp
      temp_file_absent_def handler_invariant_def split: option.splits)

lemma answered_handle_events:
  assumes "handler_invariant st" and "res st = None"
    and "res (handle_events rt u evs st) \<noteq> None"
  shows "temp_file_absent (handle_events rt u evs st)"
  using assms
proof (induction rt u evs st rule: handle_events.induct)
  case (1 rt url st)
  then show ?case by simp
next
  case (2 rt url name v evs st)
  then show ?case
    using handler_invariant_step(1,2) by (simp add: on_field_simps end_part_simps)
next
  case (3 rt url name filename uniqueId evs st)
  then show ?case
    using handler_invariant_step(4) by (simp add: on_file_simps end_part_simps)
next
  case (4 rt url evs st)
  then show ?case using handler_invariant_step(1) by (simp add: end_part_simps)
next
  case (5 rt url evs st)
  then show ?case using handler_invariant_step(3) by (simp add: on_stream_finish_simps)
next
  case (6 rt url evs st)
  then show ?case by (simp add: on_limit_simps)
next
  case (7 rt url evs st)
  then show ?case
    using on_finish_answered [of "end_part st" rt url "StreamFinish \<in> set evs"]
      handler_invariant_step(1) [of st]
    by (simp add: end_part_simps)
next
  case (8 rt url evs st)
  then show ?case using on_error_answered [of st] by (simp split: if_splits)
qed

text \<open>
  What does hold of every request: when a response is sent, the temp file at the recorded
  path does not exist.
\<close>

lemma answered_request_temp_file_removed:
  assumes "res (upload_video w b rt fs evs) \<noteq> None"
  shows "temp_file_absent (upload_video w b rt fs evs)"
proof (cases "\<exists>url. w = Some url \<and> url \<noteq> [] \<and> b = None")
  case True
  then obtain url where u: "w = Some url" "url \<noteq> []" "b = None" by blast
  show ?thesis
    using assms answered_handle_events [OF handler_invariant_initial, of fs rt url evs]
    unfolding u upload_video_runs [OF u(2)]
    by (simp add: initial_upload_simps)
next
  case False
  then show ?thesis
    by (auto simp: upload_video_def temp_file_absent_def respond_simps unlink_temp_simps
        initial_upload_simps split: option.splits)
qed

text \<open>
  A request with two file parts leaves the temp file of the first on disk: the handler
  records one path, that of the part opened last.
\<close>

lemma first_of_two_files_left:
  "temp_path (js ''/tmp'') (js ''17-x0'') (js ''first.mp4'')
   \<in> files (upload_video (Some hook) None sample_runtime {}
              (File (js ''file'') (js ''first.mp4'') (js ''17-x0'') # upload_events (js ''1'')))"
proof -
  have c: "temp_path (js ''/tmp'') (js ''17-x0'') (js ''first.mp4'')
           \<noteq> temp_path (js ''/tmp'') (js ''17-x1'') (js ''a.mp4'')"
    by (simp add: temp_path_def js_def)
  show ?thesis
    using c
    by (simp add: upload_video_def js_nonempty upload_events_def initial_upload_def on_file_def
        on_field_def field_names_distinct Let_def on_finish_def temp_path_nonempty
        webhook_form_def sample_runtime_simps unlink_temp_def response_ok_def respond_def
        end_part_def forward_def form_toString_def)
qed

section \<open>Settings: which key is written\<close>












end
